theory Spec2Isabelle
  imports Complex_Main "HOL-Library.AList"
begin

section \<open>Smart City Planner: the City model (src/engine/CityModel.js)\<close>

text \<open>
  A shallow embedding of the class \<open>CityModel\<close>. The object's fields are a record that
  every method takes and returns; a method that can raise returns a sum whose left
  injection carries the exception together with the object as the exception left it.

  The modules \<open>utils/constants.js\<close> and \<open>utils/helpers.js\<close> are not among the sources.
  What \<open>CityModel\<close> imports from them is handled as follows:
  \<^item> the tables \<open>ZONE_TYPES\<close> and \<open>CITY_SIZES\<close> and the scoring function
    \<open>calculateSustainabilityScore\<close> are parameters, collected in the record \<open>env\<close>;
  \<^item> \<open>generateId\<close>, \<open>create2DArray\<close> and \<open>deepClone\<close> are modelled from the
    specification (see their definitions).
\<close>

subsection \<open>JavaScript numbers\<close>

text \<open>
  A JavaScript number is modelled as an exact rational or \<open>NaN\<close>. Zone counts are
  integers far below \<open>2^53\<close>, where doubles are exact; the quotients inside
  \<open>calculateStats\<close> are taken exactly here, so the rounding error of a double division
  is not part of the model. Reading a missing property yields \<open>undefined\<close>, which
  arithmetic turns into \<open>NaN\<close>; \<open>NaN\<close> is absorbing and every comparison with it is false.
\<close>

datatype jsnum = Num rat | NaN

fun jlift2 :: "(rat \<Rightarrow> rat \<Rightarrow> rat) \<Rightarrow> jsnum \<Rightarrow> jsnum \<Rightarrow> jsnum" where
  "jlift2 f (Num a) (Num b) = Num (f a b)"
| "jlift2 f _ _ = NaN"

definition jadd :: "jsnum \<Rightarrow> jsnum \<Rightarrow> jsnum" where
  "jadd = jlift2 (+)"

definition jsub :: "jsnum \<Rightarrow> jsnum \<Rightarrow> jsnum" where
  "jsub = jlift2 (-)"

definition jmul :: "jsnum \<Rightarrow> jsnum \<Rightarrow> jsnum" where
  "jmul = jlift2 (*)"

text \<open>
  Division. \<open>CityModel\<close> divides only under a guard \<open>d > 0\<close>, so the quotient by zero
  (an infinity in JavaScript) is never taken; the equation for it is there for totality.
\<close>

fun jdiv :: "jsnum \<Rightarrow> jsnum \<Rightarrow> jsnum" where
  "jdiv (Num a) (Num b) = (if b = 0 then NaN else Num (a / b))"
| "jdiv _ _ = NaN"

text \<open>\<open>a > b\<close>: false as soon as one side is \<open>NaN\<close>.\<close>

fun jgt :: "jsnum \<Rightarrow> jsnum \<Rightarrow> bool" where
  "jgt (Num a) (Num b) = (b < a)"
| "jgt _ _ = False"

text \<open>\<open>Math.round\<close> rounds to the nearest integer, a half towards plus infinity.\<close>

fun Math_round :: "jsnum \<Rightarrow> jsnum" where
  "Math_round (Num a) = Num (of_int \<lfloor>a + 1 / 2\<rfloor>)"
| "Math_round NaN = NaN"

definition Math_min :: "jsnum \<Rightarrow> jsnum \<Rightarrow> jsnum" where
  "Math_min = jlift2 min"

definition Math_max :: "jsnum \<Rightarrow> jsnum \<Rightarrow> jsnum" where
  "Math_max = jlift2 max"

abbreviation jn :: "nat \<Rightarrow> jsnum" where
  "jn n \<equiv> Num (of_nat n)"

subsection \<open>Data model\<close>

type_synonym ident = nat

text \<open>A grid cell \<open>{ type, id }\<close>.\<close>

record zone =
  ztype :: string
  zid :: ident

type_synonym grid_t = "zone list list"

text \<open>
  The distribution object: its own properties in insertion order, which is the order
  \<open>Object.entries\<close> lists them in. Assigning to a property keeps its place when the
  property exists and appends it otherwise, which is what \<open>AList.update\<close> does.
\<close>

type_synonym dist = "(string \<times> jsnum) list"

text \<open>\<open>d[k]\<close> read as a number: \<open>undefined\<close> becomes \<open>NaN\<close>.\<close>

definition dget :: "dist \<Rightarrow> string \<Rightarrow> jsnum" where
  "dget d k = (case map_of d k of None \<Rightarrow> NaN | Some v \<Rightarrow> v)"

text \<open>\<open>d[k]--\<close> and \<open>d[k]++\<close>.\<close>

definition ddec :: "dist \<Rightarrow> string \<Rightarrow> dist" where
  "ddec d k = AList.update k (jsub (dget d k) (Num 1)) d"

definition dinc :: "dist \<Rightarrow> string \<Rightarrow> dist" where
  "dinc d k = AList.update k (jadd (dget d k) (Num 1)) d"

record stats_t =
  population :: jsnum
  energyConsumption :: jsnum
  carbonFootprint :: jsnum
  greenCoverage :: jsnum
  transitScore :: jsnum
  walkability :: jsnum
  airQuality :: jsnum
  energyEfficiency :: jsnum
  sustainabilityScore :: jsnum

text \<open>A history entry \<open>{ grid, distribution, stats }\<close>.\<close>

record snapshot =
  s_grid :: grid_t
  s_distribution :: dist
  s_stats :: stats_t

text \<open>
  The fields of a \<open>CityModel\<close> object. \<open>gridSize\<close> is a natural number and
  \<open>historyIndex\<close> an integer (it starts at \<open>-1\<close>). The fields \<open>roads\<close> and \<open>transitLines\<close>
  are set to empty arrays by the constructor and never used again; they are left out.
  \<open>idgen\<close> and \<open>rng\<close> are not fields of the object: they are the state of the id
  generator (see \<open>generateId\<close>) and the number of \<open>Math.random()\<close> draws made so far,
  kept beside the object so that methods can draw ids and random numbers.
\<close>

record city =
  cid :: ident
  name :: string
  csize :: string
  gridSize :: nat
  targetPopulation :: int
  grid :: grid_t
  stats :: stats_t
  distribution :: dist
  history :: "snapshot list"
  historyIndex :: int
  idgen :: nat
  rng :: nat

datatype error = TypeError

text \<open>The result of a method that may raise: the exception with the object as it is then,
  or the object after a normal return.\<close>

type_synonym 'a outcome = "(error \<times> 'a) + 'a"

subsection \<open>The absent configuration\<close>

text \<open>An entry of \<open>ZONE_TYPES\<close>: the two coefficients that \<open>calculateStats\<close> reads. A
  coefficient that is missing or zero reads as 0 (\<open>ZONE_TYPES[type]?.population || 0\<close>).\<close>

record zone_info =
  zt_population :: rat
  zt_energy :: rat

text \<open>An entry of \<open>CITY_SIZES\<close>: \<open>{ grid, population }\<close>.\<close>

record size_config =
  sc_grid :: nat
  sc_population :: int

text \<open>
  \<open>ZONE_TYPES E t\<close> is the lookup \<open>ZONE_TYPES[t]\<close> (\<open>None\<close> when it is \<open>undefined\<close>), and
  likewise \<open>CITY_SIZES\<close>.
\<close>

record env =
  ZONE_TYPES :: "string \<Rightarrow> zone_info option"
  CITY_SIZES :: "string \<Rightarrow> size_config option"
  calculateSustainabilityScore :: "dist \<Rightarrow> jsnum"

subsection \<open>calculateStats\<close>

text \<open>\<open>ZONE_TYPES[type]?.population || 0\<close> and \<open>ZONE_TYPES[type]?.energy || 0\<close>.\<close>

definition coeff_population :: "env \<Rightarrow> string \<Rightarrow> jsnum" where
  "coeff_population E t = (case ZONE_TYPES E t of None \<Rightarrow> Num 0 | Some z \<Rightarrow> Num (zt_population z))"

definition coeff_energy :: "env \<Rightarrow> string \<Rightarrow> jsnum" where
  "coeff_energy E t = (case ZONE_TYPES E t of None \<Rightarrow> Num 0 | Some z \<Rightarrow> Num (zt_energy z))"

text \<open>\<open>builtCells > 0 ? this.distribution[k] / builtCells : 0\<close>.\<close>

definition ratio_of :: "dist \<Rightarrow> jsnum \<Rightarrow> string \<Rightarrow> jsnum" where
  "ratio_of d builtCells k = (if jgt builtCells (Num 0) then jdiv (dget d k) builtCells else Num 0)"

text \<open>\<open>Math.min(100, Math.max(0, v))\<close>.\<close>

definition clamp100 :: "jsnum \<Rightarrow> jsnum" where
  "clamp100 v = Math_min (Num 100) (Math_max (Num 0) v)"

text \<open>
  \<open>calculateStats\<close> writes the fields of \<open>this.stats\<close> one after the other and reads
  \<open>this.stats.greenCoverage\<close> back after having written it; nothing else of the old
  statistics is read, so the new record is a function of \<open>gridSize\<close>, the distribution
  and the configuration. It cannot raise as long as the distribution is an object.
\<close>

definition calculateStats :: "env \<Rightarrow> city \<Rightarrow> city" where
  "calculateStats E c =
    (let d = distribution c;
         totalCells = jn (gridSize c * gridSize c);
         builtCells = jsub totalCells (dget d ''empty'');
         population' = fold (\<lambda>(type, count) sum. jadd sum (jmul (coeff_population E type) count)) d (Num 0);
         energyConsumption' = fold (\<lambda>(type, count) sum. jadd sum (jmul (coeff_energy E type) count)) d (Num 0);
         greenCoverage' = (if jgt builtCells (Num 0)
                           then Math_round (jmul (jdiv (dget d ''green'') builtCells) (Num 100))
                           else Num 0);
         transitRatio = ratio_of d builtCells ''transit'';
         residentialRatio = ratio_of d builtCells ''residential'';
         transitScore' = clamp100 (Math_round
            (jsub (jadd (Num 50) (jmul transitRatio (Num 200))) (jmul residentialRatio (Num 30))));
         greenBonus = jmul greenCoverage' (Num (1 / 2));
         transitBonus = jmul transitRatio (Num 50);
         industrialPenalty = (if jgt builtCells (Num 0)
                              then jmul (jdiv (dget d ''industrial'') builtCells) (Num 30) else Num 0);
         walkability' = clamp100 (Math_round
            (jsub (jadd (jadd (Num 50) greenBonus) transitBonus) industrialPenalty));
         greenAirBonus = jmul greenCoverage' (Num (8 / 10));
         industrialAirPenalty = (if jgt builtCells (Num 0)
                                 then jmul (jdiv (dget d ''industrial'') builtCells) (Num 50) else Num 0);
         transitAirBonus = jmul transitRatio (Num 20);
         airQuality' = clamp100 (Math_round
            (jsub (jadd (jadd (Num 60) greenAirBonus) transitAirBonus) industrialAirPenalty));
         renewableBonus = jmul greenCoverage' (Num (3 / 10));
         industrialEnergyPenalty = (if jgt builtCells (Num 0)
                                    then jmul (jdiv (dget d ''industrial'') builtCells) (Num 20) else Num 0);
         energyEfficiency' = clamp100 (Math_round
            (jsub (jadd (Num 60) renewableBonus) industrialEnergyPenalty));
         industrialCarbon = jmul (dget d ''industrial'') (Num 10);
         commercialCarbon = jmul (dget d ''commercial'') (Num 5);
         greenOffset = jmul (dget d ''green'') (Num 8);
         transitOffset = jmul (dget d ''transit'') (Num 4);
         netCarbon = jsub (jsub (jadd industrialCarbon commercialCarbon) greenOffset) transitOffset;
         maxCarbon = jmul builtCells (Num 5);
         carbonFootprint' = (if jgt maxCarbon (Num 0)
                             then Math_round (jmul (jdiv netCarbon maxCarbon) (Num 100))
                             else Num 0)
     in c\<lparr>stats := \<lparr>population = population',
                     energyConsumption = energyConsumption',
                     carbonFootprint = carbonFootprint',
                     greenCoverage = greenCoverage',
                     transitScore = transitScore',
                     walkability = walkability',
                     airQuality = airQuality',
                     energyEfficiency = energyEfficiency',
                     sustainabilityScore = calculateSustainabilityScore E d\<rparr>\<rparr>)"

subsection \<open>Helpers\<close>

text \<open>
  Modelled from the spec: \<open>generateId\<close> (utils/helpers.js is not among the sources).
  The specification calls its result a \<open>UniqueId\<close>, ``regenerated on every type change'';
  the generator is modelled as a counter, whose successive results are pairwise different.
  It returns the id and the next generator state.
\<close>

definition generateId :: "nat \<Rightarrow> ident \<times> nat" where
  "generateId n = (n, Suc n)"

text \<open>
  Modelled from the spec: \<open>create2DArray(rows, cols, init)\<close> (utils/helpers.js is not among
  the sources), at the only initialiser \<open>CityModel\<close> passes to it,
  \<open>() => ({ type: 'empty', id: generateId() })\<close>: the \<open>rows \<times> cols\<close> matrix of empty zones
  (``a square ordered matrix of Zone'', a City ``starts fully empty''), each with an id of
  its own, drawn row by row. It returns the matrix and the next generator state.
\<close>

definition create2DArray :: "nat \<Rightarrow> nat \<Rightarrow> nat \<Rightarrow> grid_t \<times> nat" where
  "create2DArray rows cols n =
     (map (\<lambda>y. map (\<lambda>x. \<lparr>ztype = ''empty'', zid = n + y * cols + x\<rparr>) [0..<cols]) [0..<rows],
      n + rows * cols)"

text \<open>
  Modelled from the spec: \<open>deepClone\<close> (utils/helpers.js is not among the sources). History
  snapshots are ``deep copies'': a value equal to the original that shares nothing with
  it. Values of HOL share nothing, so the copy is the value itself.
\<close>

definition deepClone :: "grid_t \<Rightarrow> grid_t" where
  "deepClone g = g"

text \<open>\<open>this.grid[y][x]\<close> for integers \<open>x\<close>, \<open>y\<close>: \<open>None\<close> stands for a row or a cell that is
  \<open>undefined\<close>, on which the next property access raises a TypeError.\<close>

definition cell :: "grid_t \<Rightarrow> int \<Rightarrow> int \<Rightarrow> zone option" where
  "cell g x y =
     (if 0 \<le> y \<and> nat y < length g \<and> 0 \<le> x \<and> nat x < length (g ! nat y)
      then Some (g ! nat y ! nat x) else None)"

text \<open>The loop \<open>for (v of vs) body(v)\<close>, left at the first exception.\<close>

fun for_each :: "'b list \<Rightarrow> ('b \<Rightarrow> 'a \<Rightarrow> 'a outcome) \<Rightarrow> 'a \<Rightarrow> 'a outcome" where
  "for_each [] body s = Inr s"
| "for_each (v # vs) body s =
     (case body v s of Inl e \<Rightarrow> Inl e | Inr s' \<Rightarrow> for_each vs body s')"

subsection \<open>History\<close>

text \<open>\<open>xs.slice(0, e)\<close>: a negative end counts from the end of the array.\<close>

definition slice0 :: "'a list \<Rightarrow> int \<Rightarrow> 'a list" where
  "slice0 xs e = (if e < 0 then take (nat (int (length xs) + e)) xs else take (nat e) xs)"

definition saveState :: "city \<Rightarrow> city" where
  "saveState c =
    (let h1 = slice0 (history c) (historyIndex c + 1);
         h2 = h1 @ [\<lparr>s_grid = deepClone (grid c),
                     s_distribution = distribution c,
                     s_stats = stats c\<rparr>];
         i2 = int (length h2) - 1
     in if length h2 > 50
        then c\<lparr>history := tl h2, historyIndex := i2 - 1\<rparr>
        else c\<lparr>history := h2, historyIndex := i2\<rparr>)"

text \<open>
  \<open>undo\<close> and \<open>redo\<close> return a boolean. \<open>this.history[i]\<close> is \<open>undefined\<close> outside the
  array, and reading \<open>state.grid\<close> then raises after the cursor has been moved.
\<close>

definition restore :: "snapshot \<Rightarrow> city \<Rightarrow> city" where
  "restore s c = c\<lparr>grid := deepClone (s_grid s), distribution := s_distribution s, stats := s_stats s\<rparr>"

definition undo :: "city \<Rightarrow> (error \<times> city) + (bool \<times> city)" where
  "undo c =
    (if historyIndex c \<le> 0 then Inr (False, c)
     else let i = historyIndex c - 1; c1 = c\<lparr>historyIndex := i\<rparr>
          in if nat i < length (history c)
             then Inr (True, restore (history c ! nat i) c1)
             else Inl (TypeError, c1))"


subsection \<open>Construction, setZone, fillArea, clear\<close>

definition empty_distribution :: "nat \<Rightarrow> dist" where
  "empty_distribution g =
     [(''empty'', jn (g * g)), (''residential'', Num 0), (''commercial'', Num 0),
      (''industrial'', Num 0), (''green'', Num 0), (''transit'', Num 0), (''road'', Num 0)]"

definition initial_stats :: stats_t where
  "initial_stats =
     \<lparr>population = Num 0, energyConsumption = Num 0, carbonFootprint = Num 0,
      greenCoverage = Num 0, transitScore = Num 50, walkability = Num 50,
      airQuality = Num 70, energyEfficiency = Num 60, sustainabilityScore = Num 50\<rparr>"

text \<open>The argument of the constructor: a size key or a grid size.\<close>

datatype size_arg = SizeKey string | SizeNum nat

text \<open>
  \<open>new CityModel(size)\<close>, with the state \<open>n\<close> of the id generator. For a size key that
  \<open>CITY_SIZES\<close> does not know the entry \<open>medium\<close> is used; when that is missing too,
  \<open>sizeConfig.grid\<close> raises and no object is made.
\<close>

definition CityModel :: "env \<Rightarrow> size_arg \<Rightarrow> nat \<Rightarrow> error + city" where
  "CityModel E sz n =
    (let (i, n1) = generateId n;
         cfg = (case sz of
                  SizeNum k \<Rightarrow>
                    Some (if k \<le> 60 then ''small'' else if k \<le> 100 then ''medium'' else ''large'',
                          k,
                          if k \<le> 60 then 100000 else if k \<le> 100 then 500000 else 2000000)
                | SizeKey s \<Rightarrow>
                    (case (case CITY_SIZES E s of Some sc \<Rightarrow> Some sc
                           | None \<Rightarrow> CITY_SIZES E ''medium'') of
                       None \<Rightarrow> None
                     | Some sc \<Rightarrow> Some (s, sc_grid sc, sc_population sc)))
     in case cfg of
          None \<Rightarrow> Inl TypeError
        | Some (s, g, tp) \<Rightarrow>
            let (gr, n2) = create2DArray g g n1
            in Inr (saveState
                 \<lparr>cid = i, name = ''New City'', csize = s, gridSize = g, targetPopulation = tp,
                  grid = gr, stats = initial_stats, distribution = empty_distribution g,
                  history = [], historyIndex = - 1, idgen = n2, rng = 0\<rparr>))"

text \<open>
  \<open>setZone(x, y, type)\<close> for integer coordinates. The only statement that can raise is the
  read \<open>this.grid[y][x].type\<close>, before anything is written.
\<close>

definition setZone :: "env \<Rightarrow> int \<Rightarrow> int \<Rightarrow> string \<Rightarrow> city \<Rightarrow> city outcome" where
  "setZone E x y type c =
    (if x < 0 \<or> x \<ge> int (gridSize c) \<or> y < 0 \<or> y \<ge> int (gridSize c) then Inr c
     else if ZONE_TYPES E type = None then Inr c
     else case cell (grid c) x y of
            None \<Rightarrow> Inl (TypeError, c)
          | Some z \<Rightarrow>
              let oldType = ztype z
              in if oldType = type then Inr c
                 else let (i, n1) = generateId (idgen c);
                          c1 = c\<lparr>distribution := dinc (ddec (distribution c) oldType) type\<rparr>;
                          c2 = c1\<lparr>grid := (grid c1)[nat y := (grid c1 ! nat y)[nat x := \<lparr>ztype = type, zid = i\<rparr>]],
                                  idgen := n1\<rparr>
                      in Inr (calculateStats E c2))"


definition clear :: "env \<Rightarrow> city \<Rightarrow> city" where
  "clear E c =
    (let (gr, n1) = create2DArray (gridSize c) (gridSize c) (idgen c)
     in calculateStats E
          (c\<lparr>grid := gr, idgen := n1, distribution := empty_distribution (gridSize c)\<rparr>))"

subsection \<open>Layout generation\<close>

text \<open>
  The loop \<open>for (let v = start; v < bound; v += step) body(v)\<close>. With \<open>step = 0\<close> and
  \<open>start < bound\<close> it never ends: the result \<open>None\<close> stands for a run that does not return.
\<close>

partial_function (option) for_step ::
  "int \<Rightarrow> int \<Rightarrow> int \<Rightarrow> (int \<Rightarrow> city \<Rightarrow> city outcome option) \<Rightarrow> city \<Rightarrow> city outcome option" where
  "for_step v bound step body s =
     (if v < bound
      then (case body v s of
              None \<Rightarrow> None
            | Some (Inl e) \<Rightarrow> Some (Inl e)
            | Some (Inr s') \<Rightarrow> for_step (v + step) bound step body s')
      else Some (Inr s))"

text \<open>Sequencing of statements that may raise or not return.\<close>

definition and_then :: "city outcome option \<Rightarrow> (city \<Rightarrow> city outcome option) \<Rightarrow> city outcome option" where
  "and_then r f = (case r of None \<Rightarrow> None | Some (Inl e) \<Rightarrow> Some (Inl e) | Some (Inr c) \<Rightarrow> f c)"

definition generateRoadNetwork :: "env \<Rightarrow> city \<Rightarrow> city outcome option" where
  "generateRoadNetwork E c =
    (let g = int (gridSize c);
         spacing = g div 8;
         center = g div 2
     in and_then
          (for_step spacing g spacing
             (\<lambda>y c. Some (for_each [0..g - 1] (\<lambda>x. setZone E x y ''road'') c)) c)
       (\<lambda>c. and_then
          (for_step spacing g spacing
             (\<lambda>x c. Some (for_each [0..g - 1] (\<lambda>y. setZone E x y ''road'') c)) c)
       (\<lambda>c. Some (for_each [- 2..2] (\<lambda>i. for_each [0..g - 1] (\<lambda>j c.
                let offset = j - center
                in if center + offset + i \<ge> 0 \<and> center + offset + i < g
                   then setZone E j (center + offset + i) ''road'' c
                   else Inr c)) c))))"

definition addTransitHubs :: "env \<Rightarrow> city \<Rightarrow> city outcome option" where
  "addTransitHubs E c =
    (let g = int (gridSize c);
         spacing = g div 4
     in for_step spacing g spacing
          (\<lambda>y. for_step spacing g spacing
             (\<lambda>x c. Some (for_each [(x, y), (x + 1, y), (x, y + 1), (x + 1, y + 1)]
                             (\<lambda>(a, b). setZone E a b ''transit'') c))) c)"

text \<open>
  The parameter object of \<open>generateLayout\<close>: a ratio that is \<open>undefined\<close> takes its default.
\<close>

record layout_params =
  residentialRatio :: "rat option"
  commercialRatio :: "rat option"
  industrialRatio :: "rat option"
  greenRatio :: "rat option"
  transitRatio :: "rat option"
  roadRatio :: "rat option"

definition or_default :: "rat option \<Rightarrow> rat \<Rightarrow> rat" where
  "or_default v d = (case v of None \<Rightarrow> d | Some r \<Rightarrow> r)"

text \<open>
  \<open>normalizedDist > t\<close> for the cell \<open>(x, y)\<close>, where
  \<open>normalizedDist = Math.sqrt((x - center) ** 2 + (y - center) ** 2) / (center * 1.4)\<close> and
  \<open>t \<ge> 0\<close>. Over the reals, \<open>sqrt d2 / m > t\<close> with \<open>m > 0\<close> is \<open>d2 > (t * m)\<^sup>2\<close>, which is how it
  is computed here. For \<open>center = 0\<close> the quotient is \<open>NaN\<close> at the centre (never greater)
  and plus infinity elsewhere (always greater).
\<close>

definition normalizedDist_gt :: "int \<Rightarrow> int \<Rightarrow> int \<Rightarrow> rat \<Rightarrow> bool" where
  "normalizedDist_gt x y center t =
    (let d2 = of_int ((x - center) ^ 2 + (y - center) ^ 2) :: rat;
         maxDist = of_int center * (14 / 10) :: rat
     in if center = 0 then 0 < d2 else (t * maxDist) ^ 2 < d2)"

text \<open>The zone type drawn for an empty cell from the random number \<open>rand\<close>.\<close>

definition pick_zone :: "layout_params \<Rightarrow> int \<Rightarrow> int \<Rightarrow> int \<Rightarrow> rat \<Rightarrow> string" where
  "pick_zone params x y center rand =
    (let residentialRatio' = or_default (residentialRatio params) (35 / 100);
         commercialRatio' = or_default (commercialRatio params) (15 / 100);
         greenRatio' = or_default (greenRatio params) (25 / 100);
         transitRatio' = or_default (transitRatio params) (8 / 100)
     in if normalizedDist_gt x y center (9 / 10) then
          (if rand < 4 / 10 then ''green''
           else if rand < 6 / 10 then ''industrial'' else ''empty'')
        else if normalizedDist_gt x y center (6 / 10) then
          (if rand < residentialRatio' * (3 / 2) then ''residential''
           else if rand < residentialRatio' * (3 / 2) + greenRatio' then ''green'' else ''empty'')
        else if normalizedDist_gt x y center (3 / 10) then
          (if rand < residentialRatio' then ''residential''
           else if rand < residentialRatio' + commercialRatio' then ''commercial''
           else if rand < residentialRatio' + commercialRatio' + greenRatio' * (1 / 2) then ''green''
           else ''empty'')
        else
          (if rand < commercialRatio' * 2 then ''commercial''
           else if rand < commercialRatio' * 2 + transitRatio' * 2 then ''transit''
           else if rand < commercialRatio' * 2 + transitRatio' * 2 + greenRatio' * (3 / 10) then ''green''
           else ''empty''))"

text \<open>
  The body of the zoning loop at the cell \<open>(x, y)\<close>. \<open>random\<close> is the sequence of values that
  \<open>Math.random()\<close> returns, each in \<open>[0, 1)\<close>; a draw is made for an empty cell only.
\<close>

definition zone_cell :: "env \<Rightarrow> (nat \<Rightarrow> rat) \<Rightarrow> layout_params \<Rightarrow> int \<Rightarrow> int \<Rightarrow> city \<Rightarrow> city outcome" where
  "zone_cell E random params y x c =
    (case cell (grid c) x y of
       None \<Rightarrow> Inl (TypeError, c)
     | Some z \<Rightarrow>
         if ztype z \<noteq> ''empty'' then Inr c
         else let center = int (gridSize c) div 2;
                  rand = random (rng c);
                  c1 = c\<lparr>rng := Suc (rng c)\<rparr>;
                  zoneType = pick_zone params x y center rand
              in if zoneType \<noteq> ''empty'' then setZone E x y zoneType c1 else Inr c1)"

definition generateLayout :: "env \<Rightarrow> (nat \<Rightarrow> rat) \<Rightarrow> layout_params \<Rightarrow> city \<Rightarrow> city outcome option" where
  "generateLayout E random params c =
     and_then (generateRoadNetwork E (clear E c))
       (\<lambda>c. and_then
          (Some (for_each [0..int (gridSize c) - 1]
                   (\<lambda>y. for_each [0..int (gridSize c) - 1] (zone_cell E random params y)) c))
       (\<lambda>c. and_then (addTransitHubs E c)
       (\<lambda>c. Some (Inr (saveState (calculateStats E c))))))"

subsection \<open>Export and import\<close>

text \<open>
  The object that \<open>exportData\<close> returns, by value; \<open>exportedAt\<close> is the time stamp that the
  clock gives. What the object shares with the city is the subject of the store model below.
\<close>

record export_t =
  e_id :: ident
  e_name :: string
  e_size :: string
  e_gridSize :: nat
  e_grid :: grid_t
  e_stats :: stats_t
  e_distribution :: dist
  exportedAt :: string

definition exportData :: "string \<Rightarrow> city \<Rightarrow> export_t" where
  "exportData now c =
     \<lparr>e_id = cid c, e_name = name c, e_size = csize c, e_gridSize = gridSize c,
      e_grid = grid c, e_stats = stats c, e_distribution = distribution c, exportedAt = now\<rparr>"

text \<open>
  The argument of \<open>importData\<close>: \<open>null\<close>/\<open>undefined\<close> (\<open>None\<close>) or an object. Of such an
  object \<open>id\<close>, \<open>name\<close>, \<open>size\<close> and \<open>gridSize\<close> may be missing; \<open>grid\<close> is taken to be an
  array of rows of zones and \<open>distribution\<close> an object with numeric properties, of any
  shape and content. (Without them \<open>calculateStats\<close> raises on \<open>this.distribution.empty\<close>,
  and \<open>saveState\<close> does what the absent \<open>deepClone\<close> does with \<open>undefined\<close>.)
\<close>

record payload =
  p_id :: "ident option"
  p_name :: "string option"
  p_size :: "string option"
  p_gridSize :: "nat option"
  p_grid :: grid_t
  p_distribution :: dist

text \<open>\<open>v || d\<close> on strings: the empty string is falsy as a missing one is.\<close>

definition str_or :: "string option \<Rightarrow> string \<Rightarrow> string" where
  "str_or v d = (case v of None \<Rightarrow> d | Some s \<Rightarrow> if s = [] then d else s)"

text \<open>The three assignments at the head of \<open>importData\<close>: \<open>id\<close>, \<open>name\<close>, \<open>size\<close>.\<close>

definition import_head :: "payload \<Rightarrow> city \<Rightarrow> city" where
  "import_head p c =
    (let c1 = (case p_id p of
                 Some i \<Rightarrow> c\<lparr>cid := i\<rparr>
               | None \<Rightarrow> (let (i, n1) = generateId (idgen c) in c\<lparr>cid := i, idgen := n1\<rparr>));
         c2 = c1\<lparr>name := str_or (p_name p) ''Imported City''\<rparr>
     in c2\<lparr>csize := str_or (p_size p) ''medium''\<rparr>)"

text \<open>The value of \<open>data.gridSize || CITY_SIZES[this.size].grid\<close>; \<open>None\<close> when it raises,
  which it does when the left operand is falsy and \<open>CITY_SIZES[this.size]\<close> is undefined.\<close>

definition import_gridSize :: "env \<Rightarrow> payload \<Rightarrow> city \<Rightarrow> nat option" where
  "import_gridSize E p c =
     (case p_gridSize p of
        Some k \<Rightarrow> if k = 0 then map_option sc_grid (CITY_SIZES E (csize c)) else Some k
      | None \<Rightarrow> map_option sc_grid (CITY_SIZES E (csize c)))"

text \<open>
  \<open>importData\<close> catches every exception of its body and returns \<open>false\<close>; the assignments
  made before the exception stay. Reading \<open>data.id\<close> of \<open>null\<close> raises before the first
  assignment, \<open>CITY_SIZES[this.size].grid\<close> after three.
\<close>

definition importData :: "env \<Rightarrow> payload option \<Rightarrow> city \<Rightarrow> bool \<times> city" where
  "importData E data c =
    (case data of
       None \<Rightarrow> (False, c)
     | Some p \<Rightarrow>
         let c3 = import_head p c
         in case import_gridSize E p c3 of
              None \<Rightarrow> (False, c3)
            | Some k \<Rightarrow>
                let c4 = c3\<lparr>gridSize := k\<rparr>;
                    c5 = c4\<lparr>grid := p_grid p\<rparr>;
                    c6 = c5\<lparr>distribution := p_distribution p\<rparr>
                in (True, saveState (calculateStats E c6)))"

subsection \<open>An instance of the configuration\<close>

text \<open>
  Modelled from the spec: the contents of utils/constants.js, which is not among the
  sources. The seven zone types are the keys of the distribution that the constructor
  builds; \<open>empty\<close> and \<open>road\<close> have population and energy 0 as the Zone Catalog contract
  requires, the other coefficients are illustrative. The grid sizes are those of the
  size selector (60, 100, 140) with the target populations of the constructor. The
  score is a constant within its specified range \<open>[0, 100]\<close>. This instance serves to
  evaluate the model on concrete inputs; the general theorems hold for every
  configuration that satisfies their hypotheses.
\<close>

definition sampleEnv :: env where
  "sampleEnv =
     \<lparr>ZONE_TYPES = map_of
        [(''empty'', \<lparr>zt_population = 0, zt_energy = 0\<rparr>),
         (''residential'', \<lparr>zt_population = 100, zt_energy = 50\<rparr>),
         (''commercial'', \<lparr>zt_population = 50, zt_energy = 80\<rparr>),
         (''industrial'', \<lparr>zt_population = 20, zt_energy = 150\<rparr>),
         (''green'', \<lparr>zt_population = 0, zt_energy = 5\<rparr>),
         (''transit'', \<lparr>zt_population = 0, zt_energy = 30\<rparr>),
         (''road'', \<lparr>zt_population = 0, zt_energy = 0\<rparr>)],
      CITY_SIZES = map_of
        [(''small'', \<lparr>sc_grid = 60, sc_population = 100000\<rparr>),
         (''medium'', \<lparr>sc_grid = 100, sc_population = 500000\<rparr>),
         (''large'', \<lparr>sc_grid = 140, sc_population = 2000000\<rparr>)],
      calculateSustainabilityScore = (\<lambda>d. Num 50)\<rparr>"

subsection \<open>Sequences of history operations\<close>




text \<open>The history invariant of the specification, for a history that is not empty (the
  constructor saves a first snapshot, so no City has an empty one).\<close>

definition hist_ok :: "city \<Rightarrow> bool" where
  "hist_ok c \<longleftrightarrow>
     length (history c) \<le> 50 \<and> 0 \<le> historyIndex c \<and> historyIndex c < int (length (history c))"

text \<open>The entry that \<open>saveState\<close> appends.\<close>

definition current_snapshot :: "city \<Rightarrow> snapshot" where
  "current_snapshot c =
     \<lparr>s_grid = deepClone (grid c), s_distribution = distribution c, s_stats = stats c\<rparr>"

subsection \<open>Call sequences and concrete cities\<close>

text \<open>The object after a call, whether the call returned or raised.\<close>

definition after :: "city outcome \<Rightarrow> city" where
  "after r = (case r of Inl (e, c) \<Rightarrow> c | Inr c \<Rightarrow> c)"

text \<open>\<open>setZone\<close> as a step from object to object.\<close>

definition paint :: "env \<Rightarrow> int \<Rightarrow> int \<Rightarrow> string \<Rightarrow> city \<Rightarrow> city" where
  "paint E x y type c = after (setZone E x y type c)"

text \<open>The call sequence \<open>saveState(); m; undo()\<close>.\<close>

definition save_mutate_undo :: "(city \<Rightarrow> city) \<Rightarrow> city \<Rightarrow> (error \<times> city) + (bool \<times> city)" where
  "save_mutate_undo m c = undo (m (saveState c))"

text \<open>What a caller sees after \<open>undo\<close> or \<open>redo\<close>: the boolean returned and the grid,
  distribution and statistics of the city; \<open>None\<close> when the call raised.\<close>

definition observe :: "(error \<times> city) + (bool \<times> city) \<Rightarrow> (bool \<times> grid_t \<times> dist \<times> stats_t) option" where
  "observe r = (case r of Inl e \<Rightarrow> None
                | Inr (b, c) \<Rightarrow> Some (b, grid c, distribution c, stats c))"

text \<open>\<open>new CityModel(2)\<close> with the sample configuration, and the same city after
  \<open>setZone(0, 0, 'road')\<close>.\<close>

definition city2 :: city where
  "city2 = (case CityModel sampleEnv (SizeNum 2) 0 of Inr c \<Rightarrow> c)"

definition city2_road :: city where
  "city2_road = paint sampleEnv 0 0 ''road'' city2"

subsection \<open>Invariants of the data model\<close>

text \<open>The keys of the distribution that the constructor and \<open>clear\<close> build.\<close>

definition zone_keys :: "string list" where
  "zone_keys = [''empty'', ''residential'', ''commercial'', ''industrial'', ''green'',
                ''transit'', ''road'']"

text \<open>The number of cells of a type.\<close>

definition count_cells :: "grid_t \<Rightarrow> string \<Rightarrow> nat" where
  "count_cells g k = sum_list (map (\<lambda>row. length (filter (\<lambda>z. ztype z = k) row)) g)"

definition square_grid :: "nat \<Rightarrow> grid_t \<Rightarrow> bool" where
  "square_grid n g \<longleftrightarrow> length g = n \<and> (\<forall>row \<in> set g. length row = n)"


text \<open>
  Grid and distribution fit together: the grid is \<open>n \<times> n\<close>, the distribution has exactly
  the seven keys, every cell has one of these types, and each count is the number of
  cells of its type.
\<close>

definition consistent :: "nat \<Rightarrow> grid_t \<Rightarrow> dist \<Rightarrow> bool" where
  "consistent n g d \<longleftrightarrow>
     square_grid n g \<and> map fst d = zone_keys \<and>
     (\<forall>row \<in> set g. \<forall>z \<in> set row. ztype z \<in> set zone_keys) \<and>
     (\<forall>k \<in> set zone_keys. dget d k = jn (count_cells g k))"



text \<open>Every id in the grid has been issued by the generator already.\<close>

definition ids_issued :: "city \<Rightarrow> bool" where
  "ids_issued c \<longleftrightarrow> (\<forall>row \<in> set (grid c). \<forall>z \<in> set row. zid z < idgen c)"

text \<open>\<open>new CityModel(10)\<close> with the sample configuration, and that city after every one of
  its 100 cells has been set to \<open>residential\<close> by \<open>setZone\<close>, row by row.\<close>

definition city10 :: city where
  "city10 = (case CityModel sampleEnv (SizeNum 10) 0 of Inr c \<Rightarrow> c)"

definition city10_residential :: city where
  "city10_residential = calculateStats sampleEnv
     (city10\<lparr>grid := map (\<lambda>y. map (\<lambda>x. \<lparr>ztype = ''residential'', zid = 101 + y * 10 + x\<rparr>) [0..<10]) [0..<10],
             distribution := [(''empty'', Num 0), (''residential'', Num 100), (''commercial'', Num 0),
                              (''industrial'', Num 0), (''green'', Num 0), (''transit'', Num 0),
                              (''road'', Num 0)],
             idgen := 201\<rparr>)"

subsection \<open>Import payloads used for evaluation\<close>



subsection \<open>Bounded indicators and sequences of Grid Model operations\<close>









text \<open>A payload whose distribution counts more green cells than the grid has cells.\<close>

definition payload_overcount :: payload where
  "payload_overcount =
     \<lparr>p_id = Some 9, p_name = Some ''Eden'', p_size = Some ''small'', p_gridSize = Some 2,
      p_grid = [[\<lparr>ztype = ''green'', zid = 1\<rparr>, \<lparr>ztype = ''green'', zid = 2\<rparr>],
                [\<lparr>ztype = ''green'', zid = 3\<rparr>, \<lparr>ztype = ''green'', zid = 4\<rparr>]],
      p_distribution = [(''empty'', Num 0), (''green'', Num 8)]\<rparr>"

section \<open>The City in a store: what exportData shares\<close>

text \<open>
  The record model above passes objects by value, so it cannot say whether two
  references lead to the same array. Here the three objects that \<open>exportData\<close> hands out
  live in a store: the grid is an array of references to row arrays, and the
  distribution and the statistics are objects, each at its address. A zone \<open>{ type, id }\<close>
  is never written to after its creation (\<open>setZone\<close> puts a new object into the row), so
  zones stay values. History snapshots are deep copies and stay values as well.
\<close>

type_synonym addr = nat

datatype obj = GridObj "addr list" | RowObj "zone list" | DistObj dist | StatsObj stats_t

type_synonym store = "addr \<Rightarrow> obj option"

text \<open>The fields of a \<open>CityModel\<close> object, with references for \<open>grid\<close>, \<open>stats\<close> and
  \<open>distribution\<close>.\<close>

record city_ref =
  r_cid :: ident
  r_name :: string
  r_csize :: string
  r_gridSize :: nat
  r_targetPopulation :: int
  r_grid :: addr
  r_stats :: addr
  r_distribution :: addr
  r_history :: "snapshot list"
  r_historyIndex :: int
  r_idgen :: nat
  r_rng :: nat

definition row_at :: "store \<Rightarrow> addr \<Rightarrow> zone list option" where
  "row_at h a = (case h a of Some (RowObj zs) \<Rightarrow> Some zs | _ \<Rightarrow> None)"

text \<open>The matrix behind a reference to a grid, when every reference leads to an array.\<close>

definition deref_grid :: "store \<Rightarrow> addr \<Rightarrow> grid_t option" where
  "deref_grid h a =
    (case h a of
       Some (GridObj rows) \<Rightarrow>
         if list_all (\<lambda>r. row_at h r \<noteq> None) rows
         then Some (map (\<lambda>r. case row_at h r of Some zs \<Rightarrow> zs | None \<Rightarrow> []) rows)
         else None
     | _ \<Rightarrow> None)"

text \<open>The City by value: what the references of the object lead to in the store.\<close>

definition city_of :: "store \<Rightarrow> city_ref \<Rightarrow> city option" where
  "city_of h cr =
    (case (deref_grid h (r_grid cr), h (r_stats cr), h (r_distribution cr)) of
       (Some g, Some (StatsObj s), Some (DistObj d)) \<Rightarrow>
         Some \<lparr>cid = r_cid cr, name = r_name cr, csize = r_csize cr, gridSize = r_gridSize cr,
               targetPopulation = r_targetPopulation cr, grid = g, stats = s, distribution = d,
               history = r_history cr, historyIndex = r_historyIndex cr, idgen = r_idgen cr,
               rng = r_rng cr\<rparr>
     | _ \<Rightarrow> None)"

text \<open>\<open>calculateStats\<close> assigns to the fields of the object \<open>this.stats\<close>: the object at that
  address changes, the reference stays.\<close>

definition calculateStats_st :: "env \<Rightarrow> city_ref \<Rightarrow> store \<Rightarrow> store option" where
  "calculateStats_st E cr h =
    (case city_of h cr of
       None \<Rightarrow> None
     | Some c \<Rightarrow> Some (h(r_stats cr \<mapsto> StatsObj (stats (calculateStats E c)))))"

text \<open>
  \<open>setZone\<close> in the store: \<open>this.distribution[oldType]--\<close> and \<open>this.distribution[type]++\<close>
  write to the distribution object, \<open>this.grid[y][x] = {...}\<close> writes to the row array, and
  \<open>calculateStats\<close> to the statistics object. No reference of the City changes.
\<close>

definition setZone_st ::
  "env \<Rightarrow> int \<Rightarrow> int \<Rightarrow> string \<Rightarrow> city_ref \<Rightarrow> store \<Rightarrow> error + city_ref \<times> store" where
  "setZone_st E x y type cr h =
    (if x < 0 \<or> x \<ge> int (r_gridSize cr) \<or> y < 0 \<or> y \<ge> int (r_gridSize cr) then Inr (cr, h)
     else if ZONE_TYPES E type = None then Inr (cr, h)
     else case h (r_grid cr) of
        Some (GridObj rows) \<Rightarrow>
          if nat y < length rows then
            (case h (rows ! nat y) of
               Some (RowObj zs) \<Rightarrow>
                 if nat x < length zs then
                   (let oldType = ztype (zs ! nat x)
                    in if oldType = type then Inr (cr, h)
                       else case h (r_distribution cr) of
                          Some (DistObj d) \<Rightarrow>
                            (let h1 = h(r_distribution cr \<mapsto> DistObj (dinc (ddec d oldType) type));
                                 (i, n1) = generateId (r_idgen cr);
                                 h2 = h1(rows ! nat y \<mapsto> RowObj (zs[nat x := \<lparr>ztype = type, zid = i\<rparr>]));
                                 cr' = cr\<lparr>r_idgen := n1\<rparr>
                             in case calculateStats_st E cr' h2 of
                                  None \<Rightarrow> Inl TypeError
                                | Some h3 \<Rightarrow> Inr (cr', h3))
                        | _ \<Rightarrow> Inl TypeError)
                 else Inl TypeError
             | _ \<Rightarrow> Inl TypeError)
          else Inl TypeError
      | _ \<Rightarrow> Inl TypeError)"

text \<open>The object that \<open>exportData\<close> returns: \<open>grid\<close>, \<open>stats\<close> and \<open>distribution\<close> are the
  references that the City holds.\<close>

record export_ref =
  x_id :: ident
  x_name :: string
  x_size :: string
  x_gridSize :: nat
  x_grid :: addr
  x_stats :: addr
  x_distribution :: addr
  x_exportedAt :: string

definition exportData_st :: "string \<Rightarrow> city_ref \<Rightarrow> export_ref" where
  "exportData_st now cr =
     \<lparr>x_id = r_cid cr, x_name = r_name cr, x_size = r_csize cr, x_gridSize = r_gridSize cr,
      x_grid = r_grid cr, x_stats = r_stats cr, x_distribution = r_distribution cr,
      x_exportedAt = now\<rparr>"

text \<open>What a reader of an export object finds in the store.\<close>

definition read_export :: "store \<Rightarrow> export_ref \<Rightarrow> export_t option" where
  "read_export h e =
    (case (deref_grid h (x_grid e), h (x_stats e), h (x_distribution e)) of
       (Some g, Some (StatsObj s), Some (DistObj d)) \<Rightarrow>
         Some \<lparr>e_id = x_id e, e_name = x_name e, e_size = x_size e, e_gridSize = x_gridSize e,
               e_grid = g, e_stats = s, e_distribution = d, exportedAt = x_exportedAt e\<rparr>
     | _ \<Rightarrow> None)"

text \<open>The rows of the grid are different arrays.\<close>

definition rows_distinct :: "store \<Rightarrow> city_ref \<Rightarrow> bool" where
  "rows_distinct h cr = (case h (r_grid cr) of Some (GridObj rows) \<Rightarrow> distinct rows | _ \<Rightarrow> False)"

text \<open>The 2 x 2 city of the sample configuration in a store, rows at the addresses 1 and
  2, the grid at 0, the statistics at 3 and the distribution at 4.\<close>

definition store2 :: store where
  "store2 = [0 \<mapsto> GridObj [1, 2],
             1 \<mapsto> RowObj (grid city2 ! 0),
             2 \<mapsto> RowObj (grid city2 ! 1),
             3 \<mapsto> StatsObj (stats city2),
             4 \<mapsto> DistObj (distribution city2)]"

definition city2_ref :: city_ref where
  "city2_ref =
     \<lparr>r_cid = cid city2, r_name = name city2, r_csize = csize city2, r_gridSize = gridSize city2,
      r_targetPopulation = targetPopulation city2, r_grid = 0, r_stats = 3, r_distribution = 4,
      r_history = history city2, r_historyIndex = historyIndex city2, r_idgen = idgen city2,
      r_rng = rng city2\<rparr>"

subsection \<open>Painting cells: notions for the layout generator\<close>

text \<open>The type of the cell \<open>(x, y)\<close>, \<open>None\<close> outside the grid.\<close>

definition type_at :: "city \<Rightarrow> int \<Rightarrow> int \<Rightarrow> string option" where
  "type_at c x y = map_option ztype (cell (grid c) x y)"

text \<open>
  A statement sequence \<open>f\<close> paints the set \<open>S\<close> with the type \<open>t\<close>: run on a City with a
  square grid it returns normally, keeps the grid square and of the same size, gives
  the type \<open>t\<close> to the cells of \<open>S\<close> that lie in the grid and leaves the type of every
  other cell as it was.
\<close>

definition paints :: "string \<Rightarrow> (int \<times> int) set \<Rightarrow> (city \<Rightarrow> city outcome option) \<Rightarrow> bool" where
  "paints t S f \<longleftrightarrow>
     (\<forall>c. square_grid (gridSize c) (grid c) \<longrightarrow>
        (\<exists>c'. f c = Some (Inr c') \<and> square_grid (gridSize c') (grid c') \<and>
              gridSize c' = gridSize c \<and>
              (\<forall>x y. type_at c' x y =
                 (if (x, y) \<in> S \<and> type_at c x y \<noteq> None then Some t else type_at c x y))))"

text \<open>A square grid of size \<open>n\<close> without a transit cell.\<close>

definition transit_free :: "nat \<Rightarrow> city \<Rightarrow> bool" where
  "transit_free n c \<longleftrightarrow>
     gridSize c = n \<and> square_grid n (grid c) \<and> (\<forall>x y. type_at c x y \<noteq> Some ''transit'')"

text \<open>
  The positions at which \<open>addTransitHubs\<close> places hubs along one axis, the positive
  multiples of \<open>floor(gridSize / 4)\<close> below \<open>gridSize\<close>; the intersections of the spacing
  grid; and the columns (equally, rows) that a hub cell can lie in, which are the hub
  positions and their successors as far as they are inside the grid.
\<close>

definition hub_positions :: "nat \<Rightarrow> nat list" where
  "hub_positions g = map (\<lambda>k. k * (g div 4)) [1..<Suc ((g - 1) div (g div 4))]"

definition hub_intersections :: "nat \<Rightarrow> (nat \<times> nat) list" where
  "hub_intersections g = List.product (hub_positions g) (hub_positions g)"

definition hub_columns :: "nat \<Rightarrow> nat list" where
  "hub_columns g = remdups (filter (\<lambda>x. x < g) (concat (map (\<lambda>p. [p, Suc p]) (hub_positions g))))"

text \<open>The layout parameters of the claim: industrial, commercial and transit ratio zero,
  the others at their defaults; and a sequence of random draws that are all 0.\<close>

definition params_no_transit :: layout_params where
  "params_no_transit =
     \<lparr>residentialRatio = None, commercialRatio = Some 0, industrialRatio = Some 0,
      greenRatio = None, transitRatio = Some 0, roadRatio = None\<rparr>"

definition random_zero :: "nat \<Rightarrow> rat" where
  "random_zero i = 0"

text \<open>\<open>new CityModel(9)\<close> and \<open>new CityModel(8)\<close> with the sample configuration, and the
  cities that \<open>generateLayout\<close> makes of them.\<close>

definition city9 :: city where
  "city9 = (case CityModel sampleEnv (SizeNum 9) 0 of Inr c \<Rightarrow> c)"

definition city9_layout :: city where
  "city9_layout =
     (case generateLayout sampleEnv random_zero params_no_transit city9 of Some r \<Rightarrow> after r)"

definition city8 :: city where
  "city8 = (case CityModel sampleEnv (SizeNum 8) 0 of Inr c \<Rightarrow> c)"

definition city8_layout :: city where
  "city8_layout =
     (case generateLayout sampleEnv random_zero params_no_transit city8 of Some r \<Rightarrow> after r)"

text \<open>
  The values that the loop variables of \<open>addTransitHubs\<close> take for a grid of size \<open>n\<close>:
  \<open>for (v = spacing; v < n; v += spacing)\<close> with \<open>spacing = floor(n / 4)\<close>.
\<close>

definition hub_coords :: "int \<Rightarrow> int set" where
  "hub_coords n = {p. n div 4 \<le> p \<and> p < n \<and> (n div 4) dvd (p - n div 4)}"

section \<open>Properties\<close>

subsection \<open>History\<close>









lemma CityModel_hist_ok: "CityModel E sz n = Inr c \<Longrightarrow> hist_ok c \<and> historyIndex c = 0"
  by (auto simp: CityModel_def Let_def generateId_def create2DArray_def saveState_def slice0_def
        hist_ok_def split: size_arg.splits option.splits prod.splits)




subsection \<open>Undo after a save\<close>

lemma saveState_cases:
  assumes i: "0 \<le> historyIndex c" "historyIndex c < int (length (history c))"
  shows "\<exists>k h. historyIndex (saveState c) = int (Suc k) \<and> history (saveState c) = h \<and>
           k < length h \<and> h ! k = history c ! nat (historyIndex c)"
proof -
  define j where "j = nat (historyIndex c)"
  have ij: "historyIndex c = int j" and jl: "j < length (history c)"
    using i by (simp_all add: j_def)
  have nj: "nat (historyIndex c) = j" by (simp add: j_def)
  define h1 where "h1 = take (Suc j) (history c) @ [current_snapshot c]"
  have len: "length h1 = j + 2" using jl by (simp add: h1_def)
  have nth: "h1 ! j = history c ! j" using jl by (simp add: h1_def nth_append)
  have sl: "slice0 (history c) (int j + 1) = take (Suc j) (history c)"
    by (simp add: slice0_def nat_add_distrib)
  show ?thesis
  proof (cases "length h1 > 50")
    case True
    then have s: "history (saveState c) = tl h1" "historyIndex (saveState c) = int j"
      using len jl by (simp_all add: saveState_def sl Let_def current_snapshot_def h1_def ij)
    from True len obtain k where k: "j = Suc k" by (cases j) auto
    have "tl h1 ! k = h1 ! j" using k len by (simp add: nth_tl)
    moreover have "k < length (tl h1)" using k len by simp
    ultimately show ?thesis using s k nth nj by simp
  next
    case False
    then have s: "history (saveState c) = h1" "historyIndex (saveState c) = int (Suc j)"
      using len jl by (simp_all add: saveState_def sl Let_def current_snapshot_def h1_def ij)
    then show ?thesis using len nth nj by simp
  qed
qed

lemma saveState_frame:
  "grid (saveState c) = grid c \<and> distribution (saveState c) = distribution c \<and>
   stats (saveState c) = stats c \<and> gridSize (saveState c) = gridSize c \<and>
   idgen (saveState c) = idgen c \<and> rng (saveState c) = rng c \<and> cid (saveState c) = cid c \<and>
   name (saveState c) = name c \<and> csize (saveState c) = csize c"
  by (simp add: saveState_def Let_def)

text \<open>
  C1, as the code has it. For a City with a valid cursor and a step \<open>m\<close> that leaves the
  history alone, \<open>saveState(); m; undo()\<close> ends with \<open>undo\<close> returning \<open>true\<close> and with grid,
  distribution and statistics of the snapshot that was under the cursor before
  \<open>saveState\<close> was called, that is the state as it was saved last. These are the values
  from immediately before \<open>m\<close> when the City had not changed since that snapshot.
\<close>

theorem save_mutate_undo_restores_previous_snapshot:
  assumes "0 \<le> historyIndex c" and "historyIndex c < int (length (history c))"
    and "history (m (saveState c)) = history (saveState c)"
    and "historyIndex (m (saveState c)) = historyIndex (saveState c)"
  shows "\<exists>c'. save_mutate_undo m c = Inr (True, c') \<and>
           grid c' = s_grid (history c ! nat (historyIndex c)) \<and>
           distribution c' = s_distribution (history c ! nat (historyIndex c)) \<and>
           stats c' = s_stats (history c ! nat (historyIndex c)) \<and>
           (history c ! nat (historyIndex c) = current_snapshot c \<longrightarrow>
              grid c' = grid (saveState c) \<and> distribution c' = distribution (saveState c) \<and>
              stats c' = stats (saveState c))"
proof -
  from saveState_cases[OF assms(1,2)] obtain k where
    k: "historyIndex (saveState c) = int (Suc k)" "k < length (history (saveState c))"
       "history (saveState c) ! k = history c ! nat (historyIndex c)" by blast
  have "undo (m (saveState c)) =
     Inr (True, restore (history (saveState c) ! k) ((m (saveState c))\<lparr>historyIndex := int k\<rparr>))"
    using k assms(3,4) by (simp add: undo_def Let_def)
  then show ?thesis using k
    by (auto simp: save_mutate_undo_def restore_def deepClone_def current_snapshot_def saveState_frame)
qed

theorem save_mutate_undo_restores_previous_snapshot_witness:
  "0 \<le> historyIndex city2_road \<and> historyIndex city2_road < int (length (history city2_road)) \<and>
   history (paint sampleEnv 1 0 ''road'' (saveState city2_road)) = history (saveState city2_road) \<and>
   (\<exists>c'. save_mutate_undo (paint sampleEnv 1 0 ''road'') city2_road = Inr (True, c') \<and>
      grid c' = s_grid (history city2_road ! nat (historyIndex city2_road)))"
proof -
  have a: "0 \<le> historyIndex city2_road" by code_simp
  have b: "historyIndex city2_road < int (length (history city2_road))" by code_simp
  have c: "history (paint sampleEnv 1 0 ''road'' (saveState city2_road)) = history (saveState city2_road)"
    by code_simp
  have d: "historyIndex (paint sampleEnv 1 0 ''road'' (saveState city2_road))
             = historyIndex (saveState city2_road)"
    by code_simp
  from save_mutate_undo_restores_previous_snapshot
         [of city2_road "paint sampleEnv 1 0 ''road''", OF a b c d] a b c
  show ?thesis by blast
qed

text \<open>
  C1 as stated fails: on the 2 x 2 city with a road at (0, 0), \<open>saveState()\<close>, then
  \<open>setZone(1, 0, 'road')\<close>, then \<open>undo()\<close> brings back the empty grid of the constructor's
  snapshot, not the grid with the road at (0, 0) that was there before the mutation.
\<close>

theorem save_mutate_undo_counterexample:
  "observe (save_mutate_undo (paint sampleEnv 1 0 ''road'') city2_road)
     = Some (True, grid city2, distribution city2, stats city2) \<and>
   grid city2 \<noteq> grid city2_road \<and>
   distribution city2 \<noteq> distribution city2_road"
  by code_simp

subsection \<open>Counts and cells\<close>

lemma floor_rat_numeral_div: "\<lfloor>(numeral a / numeral b :: rat)\<rfloor> = numeral a div numeral b"
  using floor_divide_of_int_eq[of "numeral a" "numeral b", where ?'a = rat] by simp

lemma floor_rat_one_div: "\<lfloor>(1 / numeral b :: rat)\<rfloor> = 1 div numeral b"
  using floor_divide_of_int_eq[of 1 "numeral b", where ?'a = rat] by simp

lemma dget_update: "dget (AList.update k v d) k' = (if k' = k then v else dget d k')"
  by (simp add: dget_def update_conv')

lemma dget_ddec: "dget (ddec d k) k' = (if k' = k then jsub (dget d k) (Num 1) else dget d k')"
  by (simp add: ddec_def dget_update)

lemma dget_dinc: "dget (dinc d k) k' = (if k' = k then jadd (dget d k) (Num 1) else dget d k')"
  by (simp add: dinc_def dget_update)









lemma square_cells: "square_grid n g \<Longrightarrow> sum_list (map length g) = n * n"
proof -
  assume a: "square_grid n g"
  then have "map length g = replicate n n"
    by (auto simp: square_grid_def intro!: replicate_eqI)
  then show ?thesis by (simp add: sum_list_replicate)
qed


subsection \<open>setZone\<close>

lemma calculateStats_frame:
  "grid (calculateStats E c) = grid c" "distribution (calculateStats E c) = distribution c"
  "gridSize (calculateStats E c) = gridSize c" "history (calculateStats E c) = history c"
  "historyIndex (calculateStats E c) = historyIndex c" "idgen (calculateStats E c) = idgen c"
  "rng (calculateStats E c) = rng c" "cid (calculateStats E c) = cid c"
  "name (calculateStats E c) = name c" "csize (calculateStats E c) = csize c"
  "targetPopulation (calculateStats E c) = targetPopulation c"
  by (simp_all add: calculateStats_def Let_def)

lemma calculateStats_cong:
  "gridSize a = gridSize b \<Longrightarrow> distribution a = distribution b \<Longrightarrow>
   stats (calculateStats E a) = stats (calculateStats E b)"
  by (simp add: calculateStats_def Let_def)

lemma calculateStats_idem: "stats (calculateStats E (calculateStats E c)) = stats (calculateStats E c)"
  by (rule calculateStats_cong) (simp_all add: calculateStats_frame)

lemma setZone_noop:
  "x < 0 \<or> int (gridSize c) \<le> x \<or> y < 0 \<or> int (gridSize c) \<le> y \<or> ZONE_TYPES E t = None \<or>
   (\<exists>z. cell (grid c) x y = Some z \<and> ztype z = t) \<Longrightarrow> setZone E x y t c = Inr c"
  by (auto simp: setZone_def Let_def split: option.splits)

lemma setZone_raises:
  "0 \<le> x \<Longrightarrow> x < int (gridSize c) \<Longrightarrow> 0 \<le> y \<Longrightarrow> y < int (gridSize c) \<Longrightarrow>
   ZONE_TYPES E t \<noteq> None \<Longrightarrow> cell (grid c) x y = None \<Longrightarrow> setZone E x y t c = Inl (TypeError, c)"
  by (simp add: setZone_def)

lemma setZone_changes:
  assumes "0 \<le> x" "x < int (gridSize c)" "0 \<le> y" "y < int (gridSize c)"
    and "ZONE_TYPES E t \<noteq> None" "cell (grid c) x y = Some z" "ztype z \<noteq> t"
  shows "setZone E x y t c = Inr (calculateStats E
           (c\<lparr>distribution := dinc (ddec (distribution c) (ztype z)) t,
              grid := (grid c)[nat y := (grid c ! nat y)[nat x := \<lparr>ztype = t, zid = idgen c\<rparr>]],
              idgen := Suc (idgen c)\<rparr>))"
  using assms by (auto simp: setZone_def Let_def generateId_def)

lemma cell_update:
  assumes "cell g x y = Some z"
  shows "cell (g[nat y := (g ! nat y)[nat x := z']]) x' y'
           = (if x' = x \<and> y' = y then Some z' else cell g x' y')"
proof -
  from assms have r: "0 \<le> y" "nat y < length g" "0 \<le> x" "nat x < length (g ! nat y)"
    by (auto simp: cell_def split: if_splits)
  show ?thesis
  proof (cases "y' = y")
    case True
    then show ?thesis using r by (auto simp: cell_def nth_list_update)
  next
    case False
    then have "0 \<le> y' \<Longrightarrow> nat y' \<noteq> nat y" using r by auto
    then show ?thesis using False by (auto simp: cell_def nth_list_update)
  qed
qed

lemma setZone_idem: "setZone E x y t c = Inr c' \<Longrightarrow> setZone E x y t c' = Inr c'"
proof -
  assume a: "setZone E x y t c = Inr c'"
  show ?thesis
  proof (cases "x < 0 \<or> int (gridSize c) \<le> x \<or> y < 0 \<or> int (gridSize c) \<le> y \<or> ZONE_TYPES E t = None \<or>
   (\<exists>z. cell (grid c) x y = Some z \<and> ztype z = t)")
    case True
    from setZone_noop[OF True] a show ?thesis by simp
  next
    case False
    then have r: "0 \<le> x" "x < int (gridSize c)" "0 \<le> y" "y < int (gridSize c)" "ZONE_TYPES E t \<noteq> None"
      by auto
    show ?thesis
    proof (cases "cell (grid c) x y")
      case None
      from setZone_raises[OF r None] a show ?thesis by simp
    next
      case (Some z)
      with False have "ztype z \<noteq> t" by auto
      from setZone_changes[OF r Some this] a
      have c': "c' = calculateStats E
           (c\<lparr>distribution := dinc (ddec (distribution c) (ztype z)) t,
              grid := (grid c)[nat y := (grid c ! nat y)[nat x := \<lparr>ztype = t, zid = idgen c\<rparr>]],
              idgen := Suc (idgen c)\<rparr>)" by simp
      have "cell (grid c') x y = Some \<lparr>ztype = t, zid = idgen c\<rparr>"
        by (simp add: c' calculateStats_frame cell_update[OF Some])
      then show ?thesis by (intro setZone_noop) simp
    qed
  qed
qed

lemma setZone_effect:
  assumes "0 \<le> x" "x < int (gridSize c)" "0 \<le> y" "y < int (gridSize c)"
    and "ZONE_TYPES E t \<noteq> None" "cell (grid c) x y = Some z" "ztype z \<noteq> t"
  shows "\<exists>c'. setZone E x y t c = Inr c' \<and>
           dget (distribution c') (ztype z) = jsub (dget (distribution c) (ztype z)) (Num 1) \<and>
           dget (distribution c') t = jadd (dget (distribution c) t) (Num 1) \<and>
           (\<forall>k. k \<noteq> ztype z \<and> k \<noteq> t \<longrightarrow> dget (distribution c') k = dget (distribution c) k) \<and>
           (\<forall>x' y'. cell (grid c') x' y' =
               (if x' = x \<and> y' = y then Some \<lparr>ztype = t, zid = idgen c\<rparr> else cell (grid c) x' y')) \<and>
           stats c' = stats (calculateStats E c') \<and>
           gridSize c' = gridSize c \<and> history c' = history c \<and> historyIndex c' = historyIndex c"
  using assms(7)
  by (simp add: setZone_changes[OF assms] calculateStats_frame calculateStats_idem cell_update[OF assms(6)]
        dget_dinc dget_ddec)

lemma cell_square:
  "square_grid n g \<Longrightarrow> 0 \<le> x \<Longrightarrow> x < int n \<Longrightarrow> 0 \<le> y \<Longrightarrow> y < int n \<Longrightarrow>
   cell g x y = Some (g ! nat y ! nat x)"
  by (auto simp: cell_def square_grid_def)

lemma square_grid_update:
  assumes "square_grid n g"
  shows "square_grid n (g[i := (g ! i)[j := z]])"
proof (cases "i < length g")
  case True
  have "length row = n" if "row \<in> set (g[i := (g ! i)[j := z]])" for row
  proof -
    from that have "row \<in> insert ((g ! i)[j := z]) (set g)" using set_update_subset_insert by fast
    moreover have "g ! i \<in> set g" using True by simp
    ultimately show ?thesis using assms by (auto simp: square_grid_def)
  qed
  then show ?thesis using assms by (simp add: square_grid_def)
next
  case False
  then show ?thesis using assms by (simp add: list_update_beyond)
qed





lemma CityModel_fields:
  assumes "CityModel E sz n = Inr c"
  shows "grid c = fst (create2DArray (gridSize c) (gridSize c) (Suc n))"
    and "distribution c = empty_distribution (gridSize c)"
    and "stats c = initial_stats"
    and "history c = [\<lparr>s_grid = grid c, s_distribution = distribution c, s_stats = stats c\<rparr>]"
    and "historyIndex c = 0"
    and "idgen c = Suc n + gridSize c * gridSize c"
  using assms
  by (auto simp: CityModel_def Let_def generateId_def create2DArray_def saveState_def slice0_def deepClone_def
        split: size_arg.splits option.splits prod.splits)


lemma clear_fields:
  "grid (clear E c) = fst (create2DArray (gridSize c) (gridSize c) (idgen c))"
  "distribution (clear E c) = empty_distribution (gridSize c)"
  "gridSize (clear E c) = gridSize c" "history (clear E c) = history c"
  "historyIndex (clear E c) = historyIndex c"
  "stats (clear E c) = stats (calculateStats E (clear E c))"
  by (simp_all add: clear_def Let_def create2DArray_def calculateStats_frame calculateStats_idem)



subsection \<open>Claims about setZone, the distribution and the statistics\<close>


lemma city10_eq: "CityModel sampleEnv (SizeNum 10) 0 = Inr city10"
  by (simp add: city10_def CityModel_def Let_def generateId_def create2DArray_def)



lemma all_one_type_count:
  "\<forall>row \<in> set g. \<forall>z \<in> set row. ztype z = t \<Longrightarrow>
   count_cells g k = (if k = t then sum_list (map length g) else 0)"
proof (induction g)
  case Nil
  then show ?case by (simp add: count_cells_def)
next
  case (Cons row g)
  have row: "length (filter (\<lambda>z. ztype z = k) r) = (if k = t then length r else 0)"
    if "\<forall>z \<in> set r. ztype z = t" for r
    using that by (induction r) auto
  have "count_cells (row # g) k = length (filter (\<lambda>z. ztype z = k) row) + count_cells g k"
    by (simp add: count_cells_def)
  with Cons row[of row] show ?case by simp
qed

lemma residential_stats:
  assumes "gridSize c = 10" and "consistent 10 (grid c) (distribution c)"
    and "\<forall>row \<in> set (grid c). \<forall>z \<in> set row. ztype z = ''residential''"
  shows "greenCoverage (stats (calculateStats E c)) = Num 0 \<and>
         transitScore (stats (calculateStats E c)) = Num 20 \<and>
         airQuality (stats (calculateStats E c)) = Num 60"
proof -
  from assms(2) have sq: "square_grid 10 (grid c)"
    and cnt: "\<forall>k \<in> set zone_keys. dget (distribution c) k = jn (count_cells (grid c) k)"
    by (auto simp: consistent_def)
  have n: "sum_list (map length (grid c)) = 100" using square_cells[OF sq] by simp
  have "dget (distribution c) ''empty'' = Num 0" "dget (distribution c) ''residential'' = Num 100"
    "dget (distribution c) ''green'' = Num 0" "dget (distribution c) ''transit'' = Num 0"
    "dget (distribution c) ''industrial'' = Num 0"
    using cnt by (simp_all add: zone_keys_def all_one_type_count[OF assms(3)] n)
  with assms(1) show ?thesis
    by (simp add: calculateStats_def Let_def ratio_of_def clamp100_def jadd_def jsub_def jmul_def
        Math_min_def Math_max_def floor_rat_numeral_div floor_rat_one_div)
qed

text \<open>
  C4, as the code has it. For a City with \<open>gridSize = 10\<close> whose cells are all
  \<open>residential\<close> and whose distribution counts its cells, \<open>calculateStats\<close> yields
  \<open>greenCoverage = 0\<close>, \<open>transitScore = 20\<close> (the residential ratio is \<open>100 / 100 = 1\<close>, so the
  score is \<open>round(50 + 0 - 1 * 30)\<close>) and \<open>airQuality = 60\<close>.
\<close>

theorem stats_all_residential:
  assumes "gridSize c = 10" and "consistent 10 (grid c) (distribution c)"
    and "\<forall>row \<in> set (grid c). \<forall>z \<in> set row. ztype z = ''residential''"
  shows "greenCoverage (stats (calculateStats E c)) = Num 0 \<and>
         transitScore (stats (calculateStats E c)) = Num 20 \<and>
         airQuality (stats (calculateStats E c)) = Num 60"
  using assms by (rule residential_stats)

lemma city10_residential_fields:
  "gridSize city10_residential = 10"
  "grid city10_residential = map (\<lambda>y. map (\<lambda>x. \<lparr>ztype = ''residential'', zid = 101 + y * 10 + x\<rparr>) [0..<10]) [0..<10]"
  "distribution city10_residential = [(''empty'', Num 0), (''residential'', Num 100), (''commercial'', Num 0),
                              (''industrial'', Num 0), (''green'', Num 0), (''transit'', Num 0),
                              (''road'', Num 0)]"
  by (simp_all add: city10_residential_def calculateStats_frame city10_def CityModel_def Let_def
       generateId_def create2DArray_def saveState_def slice0_def)


lemma city10_residential_cells:
  "\<forall>row \<in> set (grid city10_residential). \<forall>z \<in> set row. ztype z = ''residential''"
  by (auto simp: city10_residential_fields)

lemma city10_residential_consistent: "consistent 10 (grid city10_residential) (distribution city10_residential)"
proof -
  have sq: "square_grid 10 (grid city10_residential)"
    by (auto simp: city10_residential_fields square_grid_def)
  have n: "sum_list (map length (grid city10_residential)) = 100" using square_cells[OF sq] by simp
  show ?thesis
    unfolding consistent_def
    apply (intro conjI sq)
      apply (simp add: city10_residential_fields zone_keys_def)
     apply (simp add: city10_residential_cells zone_keys_def)
    apply (simp add: all_one_type_count[OF city10_residential_cells] n)
    apply (simp add: city10_residential_fields zone_keys_def dget_def)
    done
qed

theorem stats_all_residential_witness:
  "gridSize city10_residential = 10 \<and>
   consistent 10 (grid city10_residential) (distribution city10_residential) \<and>
   count_cells (grid city10_residential) ''residential'' = 100 \<and>
   greenCoverage (stats (calculateStats sampleEnv city10_residential)) = Num 0 \<and>
   transitScore (stats (calculateStats sampleEnv city10_residential)) = Num 20 \<and>
   airQuality (stats (calculateStats sampleEnv city10_residential)) = Num 60"
  using stats_all_residential[OF city10_residential_fields(1) city10_residential_consistent
          city10_residential_cells, of sampleEnv]
        city10_residential_fields(1) city10_residential_consistent
        all_one_type_count[OF city10_residential_cells, of "''residential''"]
        square_cells[of 10 "grid city10_residential"]
  by (simp add: consistent_def)

text \<open>
  C4 as stated fails on \<open>transitScore\<close>: for the 10 x 10 city with 100 residential cells
  it is 20, not 0.
\<close>

theorem stats_all_residential_counterexample:
  "gridSize city10_residential = 10 \<and>
   dget (distribution city10_residential) ''residential'' = Num 100 \<and>
   dget (distribution city10_residential) ''empty'' = Num 0 \<and>
   transitScore (stats city10_residential) = Num 20 \<and>
   transitScore (stats city10_residential) \<noteq> Num 0"
proof -
  have "stats city10_residential = stats (calculateStats sampleEnv city10_residential)"
    by (simp add: city10_residential_def calculateStats_idem)
  with residential_stats[OF city10_residential_fields(1) city10_residential_consistent city10_residential_cells, of sampleEnv] show ?thesis
    by (simp add: city10_residential_fields dget_def)
qed


lemma setZone_ids_issued:
  assumes "ids_issued c" "setZone E x y t c = Inr c'"
  shows "ids_issued c'"
proof (cases "x < 0 \<or> int (gridSize c) \<le> x \<or> y < 0 \<or> int (gridSize c) \<le> y \<or> ZONE_TYPES E t = None \<or>
   (\<exists>z. cell (grid c) x y = Some z \<and> ztype z = t)")
  case True
  from setZone_noop[OF True] assms show ?thesis by simp
next
  case False
  then have r: "0 \<le> x" "x < int (gridSize c)" "0 \<le> y" "y < int (gridSize c)" "ZONE_TYPES E t \<noteq> None"
    by auto
  show ?thesis
  proof (cases "cell (grid c) x y")
    case None
    from setZone_raises[OF r None] assms show ?thesis by simp
  next
    case (Some z)
    with False have "ztype z \<noteq> t" by auto
    from setZone_changes[OF r Some this] assms(2)
    have g: "grid c' = (grid c)[nat y := (grid c ! nat y)[nat x := \<lparr>ztype = t, zid = idgen c\<rparr>]]"
      and i: "idgen c' = Suc (idgen c)"
      by (auto simp: calculateStats_frame)
    have "\<forall>row \<in> set (grid c'). \<forall>z \<in> set row. zid z \<in> {..< Suc (idgen c)}"
      unfolding g
    proof (intro ballI)
      fix row z assume a: "row \<in> set ((grid c)[nat y := (grid c ! nat y)[nat x := \<lparr>ztype = t, zid = idgen c\<rparr>]])"
        "z \<in> set row"
      from a(1) have "row \<in> insert ((grid c ! nat y)[nat x := \<lparr>ztype = t, zid = idgen c\<rparr>]) (set (grid c))"
        using set_update_subset_insert by fast
      moreover have "grid c ! nat y \<in> set (grid c)" using Some by (auto simp: cell_def split: if_splits)
      moreover have "set ((grid c ! nat y)[nat x := \<lparr>ztype = t, zid = idgen c\<rparr>])
           \<subseteq> insert \<lparr>ztype = t, zid = idgen c\<rparr> (set (grid c ! nat y))"
        by (rule set_update_subset_insert)
      ultimately show "zid z \<in> {..< Suc (idgen c)}"
        using a(2) assms(1) by (fastforce simp: ids_issued_def less_Suc_eq)
    qed
    then show ?thesis by (simp add: ids_issued_def i)
  qed
qed

text \<open>
  C8. \<open>setZone(x, y, type)\<close> returns with the City unchanged when a coordinate is outside
  \<open>[0, gridSize)\<close>, when \<open>ZONE_TYPES[type]\<close> is undefined, or when the cell has the type
  already; a call repeated on the result of a call changes nothing. Otherwise, for a
  cell of another type, the old type's count goes down by one and the new type's up by
  one, all other counts stay, exactly the cell \<open>(x, y)\<close> is replaced by a zone of the new
  type with the id that the generator issues next (different from every id in the grid
  when all of these were issued by the generator), and the statistics are those that
  \<open>calculateStats\<close> computes for the new state.
\<close>

theorem setZone_contract:
  "(x < 0 \<or> int (gridSize c) \<le> x \<or> y < 0 \<or> int (gridSize c) \<le> y \<or> ZONE_TYPES E t = None \<or>
      (\<exists>z. cell (grid c) x y = Some z \<and> ztype z = t)
    \<longrightarrow> setZone E x y t c = Inr c) \<and>
   (\<forall>c'. setZone E x y t c = Inr c' \<longrightarrow> setZone E x y t c' = Inr c') \<and>
   (0 \<le> x \<and> x < int (gridSize c) \<and> 0 \<le> y \<and> y < int (gridSize c) \<and> ZONE_TYPES E t \<noteq> None \<and>
      cell (grid c) x y = Some z \<and> ztype z \<noteq> t
    \<longrightarrow> (\<exists>c'. setZone E x y t c = Inr c' \<and>
           dget (distribution c') (ztype z) = jsub (dget (distribution c) (ztype z)) (Num 1) \<and>
           dget (distribution c') t = jadd (dget (distribution c) t) (Num 1) \<and>
           (\<forall>k. k \<noteq> ztype z \<and> k \<noteq> t \<longrightarrow> dget (distribution c') k = dget (distribution c) k) \<and>
           (\<forall>x' y'. cell (grid c') x' y' =
               (if x' = x \<and> y' = y then Some \<lparr>ztype = t, zid = idgen c\<rparr> else cell (grid c) x' y')) \<and>
           (ids_issued c \<longrightarrow>
              ids_issued c' \<and> (\<forall>row \<in> set (grid c). \<forall>z' \<in> set row. zid z' \<noteq> idgen c)) \<and>
           stats c' = stats (calculateStats E c') \<and>
           gridSize c' = gridSize c \<and> history c' = history c \<and> historyIndex c' = historyIndex c))"
proof (intro conjI impI allI)
  assume "x < 0 \<or> int (gridSize c) \<le> x \<or> y < 0 \<or> int (gridSize c) \<le> y \<or> ZONE_TYPES E t = None \<or>
      (\<exists>z. cell (grid c) x y = Some z \<and> ztype z = t)"
  then show "setZone E x y t c = Inr c" by (rule setZone_noop)
next
  fix c' assume "setZone E x y t c = Inr c'"
  then show "setZone E x y t c' = Inr c'" by (rule setZone_idem)
next
  assume a: "0 \<le> x \<and> x < int (gridSize c) \<and> 0 \<le> y \<and> y < int (gridSize c) \<and> ZONE_TYPES E t \<noteq> None \<and>
      cell (grid c) x y = Some z \<and> ztype z \<noteq> t"
  then have r: "0 \<le> x" "x < int (gridSize c)" "0 \<le> y" "y < int (gridSize c)" "ZONE_TYPES E t \<noteq> None"
    "cell (grid c) x y = Some z" "ztype z \<noteq> t" by auto
  from setZone_effect[OF r] obtain c' where c': "setZone E x y t c = Inr c'"
    "dget (distribution c') (ztype z) = jsub (dget (distribution c) (ztype z)) (Num 1)"
    "dget (distribution c') t = jadd (dget (distribution c) t) (Num 1)"
    "\<forall>k. k \<noteq> ztype z \<and> k \<noteq> t \<longrightarrow> dget (distribution c') k = dget (distribution c) k"
    "\<forall>x' y'. cell (grid c') x' y' =
               (if x' = x \<and> y' = y then Some \<lparr>ztype = t, zid = idgen c\<rparr> else cell (grid c) x' y')"
    "stats c' = stats (calculateStats E c')"
    "gridSize c' = gridSize c" "history c' = history c" "historyIndex c' = historyIndex c"
    by blast
  have "ids_issued c \<longrightarrow> ids_issued c' \<and> (\<forall>row \<in> set (grid c). \<forall>z' \<in> set row. zid z' \<noteq> idgen c)"
  proof (intro impI conjI ballI)
    assume i: "ids_issued c"
    then show "ids_issued c'" using c'(1) by (rule setZone_ids_issued)
    fix row z' assume "row \<in> set (grid c)" "z' \<in> set row"
    with i have "zid z' < idgen c" by (simp add: ids_issued_def)
    then show "zid z' \<noteq> idgen c" by simp
  qed
  with c' show "\<exists>c'. setZone E x y t c = Inr c' \<and>
           dget (distribution c') (ztype z) = jsub (dget (distribution c) (ztype z)) (Num 1) \<and>
           dget (distribution c') t = jadd (dget (distribution c) t) (Num 1) \<and>
           (\<forall>k. k \<noteq> ztype z \<and> k \<noteq> t \<longrightarrow> dget (distribution c') k = dget (distribution c) k) \<and>
           (\<forall>x' y'. cell (grid c') x' y' =
               (if x' = x \<and> y' = y then Some \<lparr>ztype = t, zid = idgen c\<rparr> else cell (grid c) x' y')) \<and>
           (ids_issued c \<longrightarrow>
              ids_issued c' \<and> (\<forall>row \<in> set (grid c). \<forall>z' \<in> set row. zid z' \<noteq> idgen c)) \<and>
           stats c' = stats (calculateStats E c') \<and>
           gridSize c' = gridSize c \<and> history c' = history c \<and> historyIndex c' = historyIndex c"
    by blast
qed

theorem setZone_contract_witness:
  "(int (gridSize city2) \<le> 5 \<and> setZone sampleEnv 5 0 ''road'' city2 = Inr city2) \<and>
   (ZONE_TYPES sampleEnv ''lake'' = None \<and> setZone sampleEnv 0 0 ''lake'' city2 = Inr city2) \<and>
   (setZone sampleEnv 0 0 ''road'' city2 = Inr city2_road \<and>
    setZone sampleEnv 0 0 ''road'' city2_road = Inr city2_road) \<and>
   ((0::int) \<le> 0 \<and> 0 < int (gridSize city2) \<and> ZONE_TYPES sampleEnv ''road'' \<noteq> None \<and>
    cell (grid city2) 0 0 = Some \<lparr>ztype = ''empty'', zid = 1\<rparr> \<and> ids_issued city2 \<and>
    (\<exists>c'. setZone sampleEnv 0 0 ''road'' city2 = Inr c' \<and>
       dget (distribution c') ''empty'' = jsub (dget (distribution city2) ''empty'') (Num 1) \<and>
       dget (distribution c') ''road'' = jadd (dget (distribution city2) ''road'') (Num 1) \<and>
       cell (grid c') 0 0 = Some \<lparr>ztype = ''road'', zid = idgen city2\<rparr> \<and>
       ids_issued c'))"
proof -
  have a: "int (gridSize city2) \<le> 5" by code_simp
  have b: "ZONE_TYPES sampleEnv ''lake'' = None" by code_simp
  have c: "setZone sampleEnv 0 0 ''road'' city2 = Inr city2_road" by code_simp
  have d: "(0::int) \<le> 0" "0 < int (gridSize city2)" "ZONE_TYPES sampleEnv ''road'' \<noteq> None"
    "cell (grid city2) 0 0 = Some \<lparr>ztype = ''empty'', zid = 1\<rparr>" "ids_issued city2"
    by code_simp+
  note T1 = setZone_contract[of 5 city2 0 sampleEnv "''road''"]
  note T2 = setZone_contract[of 0 city2 0 sampleEnv "''lake''"]
  note T3 = setZone_contract[of 0 city2 0 sampleEnv "''road''" "\<lparr>ztype = ''empty'', zid = 1\<rparr>"]
  from T1 a have 1: "setZone sampleEnv 5 0 ''road'' city2 = Inr city2" by blast
  from T2 b have 2: "setZone sampleEnv 0 0 ''lake'' city2 = Inr city2" by blast
  from T3 c have 3: "setZone sampleEnv 0 0 ''road'' city2_road = Inr city2_road" by blast
  from T3 d have 4: "\<exists>c'. setZone sampleEnv 0 0 ''road'' city2 = Inr c' \<and>
       dget (distribution c') ''empty'' = jsub (dget (distribution city2) ''empty'') (Num 1) \<and>
       dget (distribution c') ''road'' = jadd (dget (distribution city2) ''road'') (Num 1) \<and>
       cell (grid c') 0 0 = Some \<lparr>ztype = ''road'', zid = idgen city2\<rparr> \<and>
       ids_issued c'"
    by (auto simp del: setZone_def)
  from a b c d 1 2 3 4 show ?thesis by blast
qed

subsection \<open>Import, and the statistics of a new City\<close>








text \<open>
  C5 at the state right after construction. The constructor assigns literal statistics
  and does not call \<open>calculateStats\<close>: the air quality of \<open>new CityModel(2)\<close> is 70, while
  \<open>calculateStats\<close> gives 60 for its distribution, which is also what \<open>clear()\<close>, leaving the
  same all-empty distribution, puts there.
\<close>

theorem constructor_stats_not_computed:
  "CityModel sampleEnv (SizeNum 2) 0 = Inr city2 \<and>
   airQuality (stats city2) = Num 70 \<and>
   airQuality (stats (calculateStats sampleEnv city2)) = Num 60 \<and>
   distribution (clear sampleEnv city2) = distribution city2 \<and>
   airQuality (stats (clear sampleEnv city2)) = Num 60"
  by code_simp

lemma CityModel_stats_stale:
  assumes "CityModel E sz n = Inr c"
  shows "airQuality (stats c) = Num 70 \<and> airQuality (stats (calculateStats E c)) = Num 60"
  using CityModel_fields(2,3)[OF assms]
  by (simp add: initial_stats_def calculateStats_def Let_def empty_distribution_def dget_def
        ratio_of_def clamp100_def jadd_def jsub_def jmul_def Math_min_def Math_max_def
        floor_rat_numeral_div floor_rat_one_div)

subsection \<open>The bounded indicators\<close>




































text \<open>
  \<open>importData\<close>, which the specification lists among the external interfaces, is not
  one of these operations: it installs the payload's distribution as it is, and
  \<open>greenCoverage\<close> is not clamped. A payload for a 2 x 2 city that counts 8 green cells
  is accepted and gives a green coverage of 200.
\<close>

lemma importData_greenCoverage_unclamped:
  "fst (importData sampleEnv (Some payload_overcount) city2) \<and>
   greenCoverage (stats (snd (importData sampleEnv (Some payload_overcount) city2))) = Num 200"
  by code_simp

subsection \<open>What exportData shares\<close>

lemma row_at_upd_dist: "h a = Some (DistObj d) \<Longrightarrow> row_at (h(a \<mapsto> DistObj d')) = row_at h"
  by (rule ext) (simp add: row_at_def)

lemma row_at_upd_stats: "h a = Some (StatsObj s) \<Longrightarrow> row_at (h(a \<mapsto> StatsObj s')) = row_at h"
  by (rule ext) (simp add: row_at_def)

lemma deref_grid_upd_dist:
  assumes "h a = Some (DistObj d)"
  shows "deref_grid (h(a \<mapsto> DistObj d')) ga = deref_grid h ga"
proof -
  have "row_at (h(a \<mapsto> DistObj d')) = row_at h" using assms by (rule row_at_upd_dist)
  then show ?thesis using assms by (auto simp: deref_grid_def split: option.splits obj.splits)
qed

lemma deref_grid_upd_stats:
  assumes "h a = Some (StatsObj s)"
  shows "deref_grid (h(a \<mapsto> StatsObj s')) ga = deref_grid h ga"
proof -
  have "row_at (h(a \<mapsto> StatsObj s')) = row_at h" using assms by (rule row_at_upd_stats)
  then show ?thesis using assms by (auto simp: deref_grid_def split: option.splits obj.splits)
qed

lemma map_update_distinct:
  "distinct rows \<Longrightarrow> i < length rows \<Longrightarrow>
   map (\<lambda>r. if r = rows ! i then v else f r) rows = (map f rows)[i := v]"
  by (auto simp: list_eq_iff_nth_eq nth_list_update nth_eq_iff_index_eq)

lemma deref_grid_rows:
  assumes "deref_grid h ga = Some g"
  shows "\<exists>rows. h ga = Some (GridObj rows) \<and> length rows = length g \<and>
           (\<forall>i < length rows. row_at h (rows ! i) = Some (g ! i))"
proof -
  from assms obtain rows where rows: "h ga = Some (GridObj rows)"
    by (auto simp: deref_grid_def split: option.splits obj.splits)
  with assms have all: "list_all (\<lambda>r. row_at h r \<noteq> None) rows"
    and g: "g = map (\<lambda>r. case row_at h r of Some zs \<Rightarrow> zs | None \<Rightarrow> []) rows"
    by (auto simp: deref_grid_def split: if_splits)
  have "row_at h (rows ! i) = Some (g ! i)" if "i < length rows" for i
  proof -
    from all that have "row_at h (rows ! i) \<noteq> None" by (simp add: list_all_length)
    then show ?thesis using that by (auto simp: g)
  qed
  with rows g show ?thesis by auto
qed

lemma deref_grid_upd_row:
  assumes g: "deref_grid h ga = Some g" and rows: "h ga = Some (GridObj rows)"
    and d: "distinct rows" and i: "i < length rows"
  shows "deref_grid (h(rows ! i \<mapsto> RowObj zs')) ga = Some (g[i := zs'])"
proof -
  let ?h = "h(rows ! i \<mapsto> RowObj zs')"
  from deref_grid_rows[OF g] rows have len: "length rows = length g"
    and ra: "\<forall>j < length rows. row_at h (rows ! j) = Some (g ! j)" by auto
  from ra i have "row_at h (rows ! i) \<noteq> None" by auto
  then have ne: "rows ! i \<noteq> ga" using rows by (auto simp: row_at_def)
  then have hg: "?h ga = Some (GridObj rows)" using rows by simp
  have r': "row_at ?h (rows ! j) = Some ((g[i := zs']) ! j)" if "j < length rows" for j
    using that ra d i len by (auto simp: row_at_def nth_list_update nth_eq_iff_index_eq)
  have all: "list_all (\<lambda>r. row_at ?h r \<noteq> None) rows"
    using r' by (auto simp: list_all_length)
  have "map (\<lambda>r. case row_at ?h r of Some zs \<Rightarrow> zs | None \<Rightarrow> []) rows = g[i := zs']"
    using r' len by (auto simp: list_eq_iff_nth_eq)
  with hg all show ?thesis by (simp add: deref_grid_def)
qed

lemma city_of_SomeD:
  assumes "city_of h cr = Some c"
  shows "deref_grid h (r_grid cr) = Some (grid c)" "h (r_stats cr) = Some (StatsObj (stats c))"
    "h (r_distribution cr) = Some (DistObj (distribution c))"
    "gridSize c = r_gridSize cr" "idgen c = r_idgen cr"
    "cid c = r_cid cr" "name c = r_name cr" "csize c = r_csize cr"
    "targetPopulation c = r_targetPopulation cr" "history c = r_history cr"
    "historyIndex c = r_historyIndex cr" "rng c = r_rng cr"
  using assms by (auto simp: city_of_def split: option.splits obj.splits)

lemma city_of_SomeI:
  assumes "deref_grid h (r_grid cr) = Some g" "h (r_stats cr) = Some (StatsObj s)"
    "h (r_distribution cr) = Some (DistObj d)"
  shows "city_of h cr = Some \<lparr>cid = r_cid cr, name = r_name cr, csize = r_csize cr, gridSize = r_gridSize cr,
               targetPopulation = r_targetPopulation cr, grid = g, stats = s, distribution = d,
               history = r_history cr, historyIndex = r_historyIndex cr, idgen = r_idgen cr,
               rng = r_rng cr\<rparr>"
  using assms by (simp add: city_of_def)

lemma row_at_SomeD: "row_at h a = Some zs \<Longrightarrow> h a = Some (RowObj zs)"
  by (auto simp: row_at_def split: option.splits obj.splits)

lemma setZone_st_changes:
  assumes co: "city_of h cr = Some c" and rd: "rows_distinct h cr"
    and r: "0 \<le> x" "x < int (gridSize c)" "0 \<le> y" "y < int (gridSize c)" "ZONE_TYPES E t \<noteq> None"
    and cz: "cell (grid c) x y = Some z" and ne: "ztype z \<noteq> t"
  shows "\<exists>h' c'. setZone_st E x y t cr h = Inr (cr\<lparr>r_idgen := Suc (r_idgen cr)\<rparr>, h') \<and>
           setZone E x y t c = Inr c' \<and>
           city_of h' (cr\<lparr>r_idgen := Suc (r_idgen cr)\<rparr>) = Some c'"
proof -
  note f = city_of_SomeD[OF co]
  from deref_grid_rows[OF f(1)] obtain rows where rows: "h (r_grid cr) = Some (GridObj rows)"
    "length rows = length (grid c)" "\<forall>i < length rows. row_at h (rows ! i) = Some (grid c ! i)" by blast
  from rd rows have dist: "distinct rows" by (simp add: rows_distinct_def)
  from cz have yl: "nat y < length (grid c)" and xl: "nat x < length (grid c ! nat y)"
    and z: "z = grid c ! nat y ! nat x" by (auto simp: cell_def split: if_splits)
  define ra where "ra = rows ! nat y"
  define zs where "zs = grid c ! nat y"
  from rows yl have "row_at h (rows ! nat y) = Some (grid c ! nat y)" by simp
  then have hra: "h ra = Some (RowObj zs)"
    unfolding ra_def zs_def by (rule row_at_SomeD)
  define d' where "d' = dinc (ddec (distribution c) (ztype z)) t"
  define zs' where "zs' = zs[nat x := \<lparr>ztype = t, zid = r_idgen cr\<rparr>]"
  define cr' where "cr' = cr\<lparr>r_idgen := Suc (r_idgen cr)\<rparr>"
  define h1 where "h1 = h(r_distribution cr \<mapsto> DistObj d')"
  define h2 where "h2 = h1(ra \<mapsto> RowObj zs')"
  have a1: "ra \<noteq> r_distribution cr" "ra \<noteq> r_stats cr" "ra \<noteq> r_grid cr"
    "r_stats cr \<noteq> r_distribution cr" "r_grid cr \<noteq> r_distribution cr" "r_grid cr \<noteq> r_stats cr"
    using hra f(2,3) rows(1) by auto
  have g1: "deref_grid h1 (r_grid cr) = Some (grid c)"
    unfolding h1_def
    using deref_grid_upd_dist[of h "r_distribution cr" "distribution c" d' "r_grid cr", OF f(3)] f(1)
    by simp
  have r1: "h1 (r_grid cr) = Some (GridObj rows)" using rows(1) a1 by (simp add: h1_def)
  have g2: "deref_grid h2 (r_grid cr) = Some ((grid c)[nat y := zs'])"
    unfolding h2_def ra_def
    using deref_grid_upd_row[of h1 "r_grid cr" "grid c" rows "nat y" zs', OF g1 r1 dist] yl rows(2) by simp
  define c2 where "c2 = c\<lparr>distribution := d', grid := (grid c)[nat y := zs'], idgen := Suc (idgen c)\<rparr>"
  have co2: "city_of h2 cr' = Some c2"
  proof -
    have "h2 (r_stats cr') = Some (StatsObj (stats c))" "h2 (r_distribution cr') = Some (DistObj d')"
      "deref_grid h2 (r_grid cr') = Some ((grid c)[nat y := zs'])"
      using f(2) a1 g2 by (simp_all add: h2_def h1_def cr'_def)
    from city_of_SomeI[OF this(3,1,2)] have "city_of h2 cr' = Some \<lparr>cid = r_cid cr', name = r_name cr',
        csize = r_csize cr', gridSize = r_gridSize cr', targetPopulation = r_targetPopulation cr',
        grid = (grid c)[nat y := zs'], stats = stats c, distribution = d',
        history = r_history cr', historyIndex = r_historyIndex cr',
        idgen = r_idgen cr', rng = r_rng cr'\<rparr>" .
    moreover have "\<lparr>cid = r_cid cr', name = r_name cr',
        csize = r_csize cr', gridSize = r_gridSize cr', targetPopulation = r_targetPopulation cr',
        grid = (grid c)[nat y := zs'], stats = stats c, distribution = d',
        history = r_history cr', historyIndex = r_historyIndex cr',
        idgen = r_idgen cr', rng = r_rng cr'\<rparr> = c2"
      by (rule city.equality) (simp_all add: c2_def cr'_def f)
    ultimately show ?thesis by simp
  qed
  define h3 where "h3 = h2(r_stats cr \<mapsto> StatsObj (stats (calculateStats E c2)))"
  have rs: "r_stats cr' = r_stats cr" by (simp add: cr'_def)
  have cs: "calculateStats_st E cr' h2 = Some h3"
    by (simp add: calculateStats_st_def co2 h3_def rs)
  have st: "setZone_st E x y t cr h = Inr (cr', h3)"
    using r rows(1,2) yl hra xl ne z f(3,4) cs
    unfolding h3_def h2_def h1_def cr'_def d'_def zs'_def ra_def zs_def
    by (auto simp: setZone_st_def Let_def generateId_def)
  have sz: "setZone E x y t c = Inr (calculateStats E c2)"
    using setZone_changes[OF r cz ne] by (simp add: c2_def d'_def zs'_def zs_def f(5))
  have co3: "city_of h3 cr' = Some (calculateStats E c2)"
  proof -
    have s2: "h2 (r_stats cr) = Some (StatsObj (stats c))" using f(2) a1 by (simp add: h2_def h1_def)
    have "deref_grid h3 (r_grid cr') = Some ((grid c)[nat y := zs'])"
      unfolding h3_def
      using deref_grid_upd_stats[of h2 "r_stats cr" "stats c" "stats (calculateStats E c2)" "r_grid cr", OF s2] g2
      by (simp add: cr'_def)
    moreover have "h3 (r_stats cr') = Some (StatsObj (stats (calculateStats E c2)))"
      by (simp add: h3_def cr'_def)
    moreover have "h3 (r_distribution cr') = Some (DistObj d')"
      using a1 by (simp add: h3_def h2_def h1_def cr'_def)
    ultimately have "city_of h3 cr' = Some \<lparr>cid = r_cid cr', name = r_name cr', csize = r_csize cr',
               gridSize = r_gridSize cr', targetPopulation = r_targetPopulation cr',
               grid = (grid c)[nat y := zs'], stats = stats (calculateStats E c2), distribution = d',
               history = r_history cr', historyIndex = r_historyIndex cr', idgen = r_idgen cr',
               rng = r_rng cr'\<rparr>" by (rule city_of_SomeI)
    moreover have "\<lparr>cid = r_cid cr', name = r_name cr', csize = r_csize cr',
               gridSize = r_gridSize cr', targetPopulation = r_targetPopulation cr',
               grid = (grid c)[nat y := zs'], stats = stats (calculateStats E c2), distribution = d',
               history = r_history cr', historyIndex = r_historyIndex cr', idgen = r_idgen cr',
               rng = r_rng cr'\<rparr> = calculateStats E c2"
      by (rule city.equality) (simp_all add: calculateStats_frame c2_def cr'_def f)
    ultimately show ?thesis by simp
  qed
  from st sz co3 show ?thesis unfolding cr'_def by blast
qed

lemma read_export_city_of:
  assumes "city_of h cr = Some c"
  shows "read_export h (exportData_st now cr) = Some (exportData now c)"
  using city_of_SomeD[OF assms]
  by (simp add: read_export_def exportData_st_def exportData_def)

lemma setZone_frame:
  assumes "setZone E x y t c = Inr c'"
  shows "cid c' = cid c" "name c' = name c" "csize c' = csize c" "gridSize c' = gridSize c"
  using assms
  by (auto simp: setZone_def Let_def generateId_def calculateStats_frame split: if_splits option.splits)

text \<open>
  C10. Take a City in a store whose rows are different arrays, the object \<open>e\<close> that
  \<open>exportData\<close> returns, and a \<open>setZone\<close> call that changes a cell. Before the call a reader
  of \<open>e\<close> finds the City as it is then. After the call the same object \<open>e\<close> reads as an
  export of the City after the mutation: its grid is the changed grid, which differs
  from the grid at export time, and its statistics are the recomputed ones. The call in
  the store does what \<open>setZone\<close> does on the City by value.
\<close>

theorem export_shares_live_objects:
  assumes "city_of h cr = Some c" and "rows_distinct h cr"
    and "0 \<le> x" "x < int (gridSize c)" "0 \<le> y" "y < int (gridSize c)" "ZONE_TYPES E t \<noteq> None"
    and "cell (grid c) x y = Some z" and "ztype z \<noteq> t"
  shows "\<exists>cr' h' c'. setZone_st E x y t cr h = Inr (cr', h') \<and>
           setZone E x y t c = Inr c' \<and> city_of h' cr' = Some c' \<and>
           read_export h (exportData_st now cr) = Some (exportData now c) \<and>
           read_export h' (exportData_st now cr) = Some (exportData now c') \<and>
           e_grid (exportData now c') \<noteq> e_grid (exportData now c) \<and>
           e_stats (exportData now c') = stats (calculateStats E c')"
proof -
  let ?cr' = "cr\<lparr>r_idgen := Suc (r_idgen cr)\<rparr>"
  from setZone_st_changes[OF assms] obtain h' c' where
    s: "setZone_st E x y t cr h = Inr (?cr', h')" "setZone E x y t c = Inr c'"
       "city_of h' ?cr' = Some c'" by blast
  have e: "exportData_st now ?cr' = exportData_st now cr" by (simp add: exportData_st_def)
  from read_export_city_of[OF s(3), of now] e
  have r': "read_export h' (exportData_st now cr) = Some (exportData now c')" by simp
  from setZone_effect[OF assms(3-9)] s(2)
  have c: "cell (grid c') x y = Some \<lparr>ztype = t, zid = idgen c\<rparr>" "stats c' = stats (calculateStats E c')"
    by auto
  from c(1) assms(8,9) have "grid c' \<noteq> grid c" by auto
  with s r' c(2) read_export_city_of[OF assms(1), of now] show ?thesis
    by (auto simp: exportData_def)
qed

lemma city_of_store2: "city_of store2 city2_ref = Some city2"
  by code_simp

theorem export_shares_live_objects_witness:
  "city_of store2 city2_ref = Some city2 \<and> rows_distinct store2 city2_ref \<and>
   cell (grid city2) 0 0 = Some \<lparr>ztype = ''empty'', zid = 1\<rparr> \<and>
   (\<exists>cr' h'. setZone_st sampleEnv 0 0 ''road'' city2_ref store2 = Inr (cr', h') \<and>
      read_export store2 (exportData_st ''t0'' city2_ref) = Some (exportData ''t0'' city2) \<and>
      read_export h' (exportData_st ''t0'' city2_ref) = Some (exportData ''t0'' city2_road))"
proof -
  have a: "rows_distinct store2 city2_ref" by code_simp
  have b: "(0::int) \<le> 0" "0 < int (gridSize city2)" "ZONE_TYPES sampleEnv ''road'' \<noteq> None"
    "cell (grid city2) 0 0 = Some \<lparr>ztype = ''empty'', zid = 1\<rparr>"
    "ztype \<lparr>ztype = ''empty'', zid = 1\<rparr> \<noteq> ''road''" by code_simp+
  have c: "setZone sampleEnv 0 0 ''road'' city2 = Inr city2_road" by code_simp
  from export_shares_live_objects[OF city_of_store2 a b(1,2,1,2,3,4,5), of "''t0''"] c
  have "\<exists>cr' h'. setZone_st sampleEnv 0 0 ''road'' city2_ref store2 = Inr (cr', h') \<and>
      read_export store2 (exportData_st ''t0'' city2_ref) = Some (exportData ''t0'' city2) \<and>
      read_export h' (exportData_st ''t0'' city2_ref) = Some (exportData ''t0'' city2_road)"
    by auto
  with city_of_store2 a b(4) show ?thesis by blast
qed

subsection \<open>Layout generation: the transit hubs\<close>

lemma cell_None_outside:
  "square_grid n g \<Longrightarrow> x < 0 \<or> int n \<le> x \<or> y < 0 \<or> int n \<le> y \<Longrightarrow> cell g x y = None"
  by (auto simp: cell_def square_grid_def)

lemma type_at_setZone:
  assumes sq: "square_grid (gridSize c) (grid c)"
  shows "\<exists>c'. setZone E x y t c = Inr c' \<and> square_grid (gridSize c') (grid c') \<and>
           gridSize c' = gridSize c \<and>
           (\<forall>x' y'. type_at c' x' y' =
                 (if (x', y') = (x, y) \<and> ZONE_TYPES E t \<noteq> None \<and> type_at c x' y' \<noteq> None
                  then Some t else type_at c x' y'))"
proof (cases "x < 0 \<or> int (gridSize c) \<le> x \<or> y < 0 \<or> int (gridSize c) \<le> y")
  case True
  then have "setZone E x y t c = Inr c" by (intro setZone_noop) blast
  moreover from True have "type_at c x y = None"
    using cell_None_outside[OF sq, of x y] by (simp add: type_at_def)
  ultimately show ?thesis using sq by auto
next
  case False
  then have r: "0 \<le> x" "x < int (gridSize c)" "0 \<le> y" "y < int (gridSize c)" by auto
  from cell_square[OF sq r] obtain z where z: "cell (grid c) x y = Some z" by blast
  show ?thesis
  proof (cases "ZONE_TYPES E t = None \<or> ztype z = t")
    case True
    with z have "setZone E x y t c = Inr c" by (intro setZone_noop) blast
    with True z sq show ?thesis by (auto simp: type_at_def)
  next
    case f: False
    then have n: "ZONE_TYPES E t \<noteq> None" "ztype z \<noteq> t" by auto
    from setZone_changes[OF r n(1) z n(2)] obtain c' where
      c': "setZone E x y t c = Inr c'"
          "grid c' = (grid c)[nat y := (grid c ! nat y)[nat x := \<lparr>ztype = t, zid = idgen c\<rparr>]]"
          "gridSize c' = gridSize c"
      by (simp add: calculateStats_frame)
    have "square_grid (gridSize c') (grid c')"
      using square_grid_update[OF sq] c'(2,3) by simp
    moreover have "\<forall>x' y'. type_at c' x' y' =
                 (if (x', y') = (x, y) \<and> ZONE_TYPES E t \<noteq> None \<and> type_at c x' y' \<noteq> None
                  then Some t else type_at c x' y')"
      using z n(1) by (auto simp: type_at_def c'(2) cell_update[OF z])
    ultimately show ?thesis using c' by blast
  qed
qed

lemma paints_setZone:
  "paints t (if ZONE_TYPES E t = None then {} else {(x, y)}) (\<lambda>c. Some (setZone E x y t c))"
  unfolding paints_def
proof (intro allI impI)
  fix c :: city assume sq: "square_grid (gridSize c) (grid c)"
  from type_at_setZone[OF sq, of E x y t] obtain c' where
    c': "setZone E x y t c = Inr c'" "square_grid (gridSize c') (grid c')" "gridSize c' = gridSize c"
      "\<forall>x' y'. type_at c' x' y' =
                 (if (x', y') = (x, y) \<and> ZONE_TYPES E t \<noteq> None \<and> type_at c x' y' \<noteq> None
                  then Some t else type_at c x' y')" by blast
  show "\<exists>c'. Some (setZone E x y t c) = Some (Inr c') \<and> square_grid (gridSize c') (grid c') \<and>
              gridSize c' = gridSize c \<and>
              (\<forall>xa ya. type_at c' xa ya =
                 (if (xa, ya) \<in> (if ZONE_TYPES E t = None then {} else {(x, y)}) \<and> type_at c xa ya \<noteq> None
                  then Some t else type_at c xa ya))"
    using c' by (intro exI[of _ c']) auto
qed

lemma paints_skip: "paints t {} (\<lambda>c. Some (Inr c))"
  by (simp add: paints_def)

lemma paints_seq:
  assumes "paints t S f" "paints t S' g"
  shows "paints t (S \<union> S') (\<lambda>c. and_then (f c) g)"
  unfolding paints_def
proof (intro allI impI)
  fix c :: city assume sq: "square_grid (gridSize c) (grid c)"
  from assms(1) sq obtain c1 where c1: "f c = Some (Inr c1)" "square_grid (gridSize c1) (grid c1)"
    "gridSize c1 = gridSize c"
    "\<forall>x y. type_at c1 x y = (if (x, y) \<in> S \<and> type_at c x y \<noteq> None then Some t else type_at c x y)"
    unfolding paints_def by blast
  from assms(2) c1(2) obtain c2 where c2: "g c1 = Some (Inr c2)" "square_grid (gridSize c2) (grid c2)"
    "gridSize c2 = gridSize c1"
    "\<forall>x y. type_at c2 x y = (if (x, y) \<in> S' \<and> type_at c1 x y \<noteq> None then Some t else type_at c1 x y)"
    unfolding paints_def by blast
  have "\<forall>x y. type_at c2 x y = (if (x, y) \<in> S \<union> S' \<and> type_at c x y \<noteq> None then Some t else type_at c x y)"
    using c1(4) c2(4) by auto
  with c1 c2 show "\<exists>c'. and_then (f c) g = Some (Inr c') \<and> square_grid (gridSize c') (grid c') \<and>
              gridSize c' = gridSize c \<and>
              (\<forall>x y. type_at c' x y =
                 (if (x, y) \<in> S \<union> S' \<and> type_at c x y \<noteq> None then Some t else type_at c x y))"
    by (intro exI[of _ c2]) (simp add: and_then_def)
qed

lemma for_each_Cons_and_then:
  "Some (for_each (v # vs) body c) = and_then (Some (body v c)) (\<lambda>c. Some (for_each vs body c))"
  by (simp add: and_then_def split: sum.splits)

lemma paints_for_each:
  assumes "\<And>v. v \<in> set vs \<Longrightarrow> paints t (S v) (\<lambda>c. Some (body v c))"
  shows "paints t (\<Union>v \<in> set vs. S v) (\<lambda>c. Some (for_each vs body c))"
  using assms
proof (induction vs)
  case Nil
  then show ?case using paints_skip by simp
next
  case (Cons v vs)
  have a: "paints t (S v) (\<lambda>c. Some (body v c))" using Cons.prems by simp
  have b: "paints t (\<Union>v \<in> set vs. S v) (\<lambda>c. Some (for_each vs body c))"
    using Cons.IH Cons.prems by simp
  from paints_seq[OF a b] show ?case
    by (simp add: for_each_Cons_and_then[symmetric] del: for_each.simps)
qed

lemma for_step_unfold_done: "\<not> v < bound \<Longrightarrow> for_step v bound step body = (\<lambda>c. Some (Inr c))"
  by (rule ext) (subst for_step.simps, simp)

lemma for_step_unfold_step:
  "v < bound \<Longrightarrow> for_step v bound step body = (\<lambda>c. and_then (body v c) (for_step (v + step) bound step body))"
  by (rule ext) (subst for_step.simps, simp add: and_then_def split: option.splits sum.splits)

lemma steps_split:
  fixes v step bound :: int
  assumes "0 < step" "v < bound"
  shows "{p. v \<le> p \<and> p < bound \<and> step dvd (p - v)}
         = insert v {p. v + step \<le> p \<and> p < bound \<and> step dvd (p - (v + step))}"
proof (intro set_eqI iffI)
  fix p assume "p \<in> {p. v \<le> p \<and> p < bound \<and> step dvd (p - v)}"
  then have p: "v \<le> p" "p < bound" "step dvd (p - v)" by auto
  show "p \<in> insert v {p. v + step \<le> p \<and> p < bound \<and> step dvd (p - (v + step))}"
  proof (cases "p = v")
    case True
    then show ?thesis by simp
  next
    case False
    with p(1) have "0 < p - v" by simp
    with p(3) have "step \<le> p - v" by (rule zdvd_imp_le)
    moreover from p(3) have "step dvd (p - v) - step" by (rule dvd_diff) (rule dvd_refl)
    then have "step dvd p - (v + step)" by (simp only: diff_diff_eq)
    ultimately show ?thesis using p(2) by simp
  qed
next
  fix p assume "p \<in> insert v {p. v + step \<le> p \<and> p < bound \<and> step dvd (p - (v + step))}"
  then consider "p = v" | "v + step \<le> p" "p < bound" "step dvd (p - (v + step))" by auto
  then show "p \<in> {p. v \<le> p \<and> p < bound \<and> step dvd (p - v)}"
  proof cases
    case 1
    with assms(2) show ?thesis by simp
  next
    case 2
    from 2(3) have "step dvd (p - (v + step)) + step" by (rule dvd_add) (rule dvd_refl)
    also have "(p - (v + step)) + step = p - v" by simp
    finally have "step dvd (p - v)" .
    with 2 assms(1) show ?thesis by simp
  qed
qed

lemma paints_for_step:
  assumes st: "0 < step" and b: "\<And>p. paints t (S p) (body p)"
  shows "paints t (\<Union>p \<in> {p. v \<le> p \<and> p < bound \<and> step dvd (p - v)}. S p) (for_step v bound step body)"
proof (induction "nat (bound - v)" arbitrary: v rule: less_induct)
  case less
  show ?case
  proof (cases "v < bound")
    case False
    then have e: "{p. v \<le> p \<and> p < bound \<and> step dvd (p - v)} = {}" by auto
    show ?thesis unfolding e for_step_unfold_done[OF False] using paints_skip by simp
  next
    case True
    with st have "nat (bound - (v + step)) < nat (bound - v)" by simp
    from less[OF this] have
      IH: "paints t (\<Union>p \<in> {p. v + step \<le> p \<and> p < bound \<and> step dvd (p - (v + step))}. S p)
             (for_step (v + step) bound step body)" .
    from paints_seq[OF b[of v] IH] show ?thesis
      unfolding for_step_unfold_step[OF True] steps_split[OF st True] by simp
  qed
qed

lemma paintsE_setZone: "\<exists>S. paints t S (\<lambda>c. Some (setZone E x y t c))"
  using paints_setZone by blast

lemma paintsE_for_each:
  assumes "\<And>v. \<exists>S. paints t S (\<lambda>c. Some (body v c))"
  shows "\<exists>S. paints t S (\<lambda>c. Some (for_each vs body c))"
proof -
  from assms have "\<forall>v. \<exists>S. paints t S (\<lambda>c. Some (body v c))" by blast
  from choice[OF this] obtain S where "\<forall>v. paints t (S v) (\<lambda>c. Some (body v c))" by blast
  then have "paints t (\<Union>v \<in> set vs. S v) (\<lambda>c. Some (for_each vs body c))"
    by (intro paints_for_each) simp
  then show ?thesis ..
qed

lemma paintsE_for_step:
  assumes "0 < step" "\<And>p. \<exists>S. paints t S (body p)"
  shows "\<exists>S. paints t S (for_step v bound step body)"
proof -
  from assms(2) have "\<forall>p. \<exists>S. paints t S (body p)" by blast
  from choice[OF this] obtain S where "\<forall>p. paints t (S p) (body p)" by blast
  then have "paints t (\<Union>p \<in> {p. v \<le> p \<and> p < bound \<and> step dvd (p - v)}. S p) (for_step v bound step body)"
    by (intro paints_for_step assms(1)) simp
  then show ?thesis ..
qed

lemma paintsE_seq:
  assumes "\<exists>S. paints t S f" "\<exists>S. paints t S g"
  shows "\<exists>S. paints t S (\<lambda>c. and_then (f c) g)"
  using assms paints_seq by blast

lemma paints_transit_free:
  assumes "paints t S f" "t \<noteq> ''transit''" "transit_free n c"
  shows "\<exists>c'. f c = Some (Inr c') \<and> transit_free n c'"
proof -
  from assms(3) have sq: "square_grid (gridSize c) (grid c)" by (simp add: transit_free_def)
  with assms(1) obtain c' where c': "f c = Some (Inr c')" "square_grid (gridSize c') (grid c')"
    "gridSize c' = gridSize c"
    "\<forall>x y. type_at c' x y = (if (x, y) \<in> S \<and> type_at c x y \<noteq> None then Some t else type_at c x y)"
    unfolding paints_def by blast
  with assms(2,3) have "transit_free n c'" by (auto simp: transit_free_def)
  with c'(1) show ?thesis by blast
qed

lemma for_each_total:
  assumes "\<And>v c. v \<in> set vs \<Longrightarrow> Q c \<Longrightarrow> \<exists>c'. body v c = Inr c' \<and> Q c'" "Q c"
  shows "\<exists>c'. for_each vs body c = Inr c' \<and> Q c'"
  using assms
proof (induction vs arbitrary: c)
  case Nil
  then show ?case by simp
next
  case (Cons v vs)
  from Cons.prems(1)[of v c] Cons.prems(2) obtain c1 where c1: "body v c = Inr c1" "Q c1" by auto
  have "\<exists>c'. for_each vs body c1 = Inr c' \<and> Q c'"
    by (rule Cons.IH[OF _ c1(2)]) (use Cons.prems(1) in auto)
  with c1 show ?case by simp
qed

lemma type_at_create2DArray:
  "type_at (c\<lparr>grid := fst (create2DArray n n m)\<rparr>) x y \<noteq> Some ''transit''"
  by (auto simp: type_at_def cell_def create2DArray_def)

lemma clear_transit_free: "transit_free (gridSize c) (clear E c)"
proof -
  have "square_grid (gridSize c) (grid (clear E c))"
    by (auto simp: clear_fields square_grid_def create2DArray_def)
  moreover have "\<forall>x y. type_at (clear E c) x y \<noteq> Some ''transit''"
    by (auto simp: type_at_def cell_def clear_fields create2DArray_def)
  ultimately show ?thesis by (simp add: transit_free_def clear_fields)
qed

lemma pick_zone_not_transit:
  assumes "commercialRatio params = Some 0" "transitRatio params = Some 0" "0 \<le> rand"
  shows "pick_zone params x y center rand \<noteq> ''transit''"
  using assms by (simp add: pick_zone_def Let_def or_default_def)

lemma transit_free_rng: "transit_free n c \<Longrightarrow> transit_free n (c\<lparr>rng := r\<rparr>)"
  by (simp add: transit_free_def type_at_def)

lemma setZone_transit_free:
  assumes "t \<noteq> ''transit''" "transit_free n c"
  shows "\<exists>c'. setZone E x y t c = Inr c' \<and> transit_free n c'"
  using paints_transit_free[OF paints_setZone[of t E x y] assms] by simp

lemma zone_cell_transit_free:
  assumes cr: "commercialRatio params = Some 0" and tr: "transitRatio params = Some 0"
    and rnd: "\<forall>i. 0 \<le> random i"
    and x: "0 \<le> x" "x < int n" and y: "0 \<le> y" "y < int n" and tf: "transit_free n c"
  shows "\<exists>c'. zone_cell E random params y x c = Inr c' \<and> transit_free n c'"
proof -
  from tf have sq: "square_grid n (grid c)" and gs: "gridSize c = n"
    by (simp_all add: transit_free_def)
  from cell_square[OF sq x y] obtain z where z: "cell (grid c) x y = Some z" by blast
  show ?thesis
  proof (cases "ztype z \<noteq> ''empty''")
    case True
    with z tf show ?thesis by (simp add: zone_cell_def)
  next
    case False
    let ?c1 = "c\<lparr>rng := Suc (rng c)\<rparr>"
    let ?t = "pick_zone params x y (int (gridSize c) div 2) (random (rng c))"
    have nt: "?t \<noteq> ''transit''" using pick_zone_not_transit[OF cr tr] rnd by blast
    have tf1: "transit_free n ?c1" using tf by (rule transit_free_rng)
    from setZone_transit_free[OF nt tf1, of E x y] obtain c' where
      c': "setZone E x y ?t ?c1 = Inr c'" "transit_free n c'" by blast
    show ?thesis
    proof (cases "?t = ''empty''")
      case True
      with z False tf1 show ?thesis by (simp add: zone_cell_def Let_def)
    next
      case ne: False
      with z False c' show ?thesis by (simp add: zone_cell_def Let_def)
    qed
  qed
qed

lemma zoning_transit_free:
  assumes cr: "commercialRatio params = Some 0" and tr: "transitRatio params = Some 0"
    and rnd: "\<forall>i. 0 \<le> random i" and tf: "transit_free n c"
  shows "\<exists>c'. for_each [0..int n - 1]
                 (\<lambda>y. for_each [0..int n - 1] (zone_cell E random params y)) c = Inr c'
              \<and> transit_free n c'"
proof (rule for_each_total[where Q = "transit_free n", OF _ tf])
  fix y :: int and c :: city
  assume y: "y \<in> set [0..int n - 1]" and q: "transit_free n c"
  show "\<exists>c'. for_each [0..int n - 1] (zone_cell E random params y) c = Inr c' \<and> transit_free n c'"
  proof (rule for_each_total[where Q = "transit_free n", OF _ q])
    fix x :: int and c :: city
    assume x: "x \<in> set [0..int n - 1]" and q: "transit_free n c"
    from x y show "\<exists>c'. zone_cell E random params y x c = Inr c' \<and> transit_free n c'"
      by (intro zone_cell_transit_free[OF cr tr rnd _ _ _ _ q]) simp_all
  qed
qed

lemma roads_paintsE:
  fixes n :: int
  assumes s: "0 < n div 8"
  shows "\<exists>S. paints ''road'' S
     (\<lambda>c. and_then
          (for_step (n div 8) n (n div 8)
             (\<lambda>y c. Some (for_each [0..n - 1] (\<lambda>x. setZone E x y ''road'') c)) c)
       (\<lambda>c. and_then
          (for_step (n div 8) n (n div 8)
             (\<lambda>x c. Some (for_each [0..n - 1] (\<lambda>y. setZone E x y ''road'') c)) c)
       (\<lambda>c. Some (for_each [- 2..2] (\<lambda>i. for_each [0..n - 1] (\<lambda>j c.
                if n div 2 + (j - n div 2) + i \<ge> 0 \<and> n div 2 + (j - n div 2) + i < n
                then setZone E j (n div 2 + (j - n div 2) + i) ''road'' c
                else Inr c)) c))))"
proof -
  have a: "\<exists>S. paints ''road'' S (for_step (n div 8) n (n div 8)
             (\<lambda>y c. Some (for_each [0..n - 1] (\<lambda>x. setZone E x y ''road'') c)))"
    by (rule paintsE_for_step[OF s]) (rule paintsE_for_each, rule paintsE_setZone)
  have b: "\<exists>S. paints ''road'' S (for_step (n div 8) n (n div 8)
             (\<lambda>x c. Some (for_each [0..n - 1] (\<lambda>y. setZone E x y ''road'') c)))"
    by (rule paintsE_for_step[OF s]) (rule paintsE_for_each, rule paintsE_setZone)
  have d: "\<exists>S. paints ''road'' S (\<lambda>c. Some (
                if n div 2 + (j - n div 2) + i \<ge> 0 \<and> n div 2 + (j - n div 2) + i < n
                then setZone E j (n div 2 + (j - n div 2) + i) ''road'' c
                else Inr c))" for i j
  proof (cases "n div 2 + (j - n div 2) + i \<ge> 0 \<and> n div 2 + (j - n div 2) + i < n")
    case True
    then show ?thesis using paintsE_setZone[of "''road''" E j "n div 2 + (j - n div 2) + i"] by simp
  next
    case False
    then show ?thesis using paints_skip[of "''road''"] by auto
  qed
  have e: "\<exists>S. paints ''road'' S (\<lambda>c. Some (for_each [- 2..2] (\<lambda>i. for_each [0..n - 1] (\<lambda>j c.
                if n div 2 + (j - n div 2) + i \<ge> 0 \<and> n div 2 + (j - n div 2) + i < n
                then setZone E j (n div 2 + (j - n div 2) + i) ''road'' c
                else Inr c)) c))"
    by (rule paintsE_for_each, rule paintsE_for_each, rule d)
  from paintsE_seq[OF b e] have be: "\<exists>S. paints ''road'' S (\<lambda>c. and_then
          (for_step (n div 8) n (n div 8)
             (\<lambda>x c. Some (for_each [0..n - 1] (\<lambda>y. setZone E x y ''road'') c)) c)
       (\<lambda>c. Some (for_each [- 2..2] (\<lambda>i. for_each [0..n - 1] (\<lambda>j c.
                if n div 2 + (j - n div 2) + i \<ge> 0 \<and> n div 2 + (j - n div 2) + i < n
                then setZone E j (n div 2 + (j - n div 2) + i) ''road'' c
                else Inr c)) c)))" .
  from paintsE_seq[OF a be] show ?thesis .
qed

lemma generateRoadNetwork_transit_free:
  assumes n: "8 \<le> n" and tf: "transit_free n c"
  shows "\<exists>c'. generateRoadNetwork E c = Some (Inr c') \<and> transit_free n c'"
proof -
  from tf have gs: "gridSize c = n" by (simp add: transit_free_def)
  from n have s: "0 < int n div 8" by simp
  from roads_paintsE[OF s, of E] obtain S where S: "paints ''road'' S
     (\<lambda>c. and_then
          (for_step (int n div 8) (int n) (int n div 8)
             (\<lambda>y c. Some (for_each [0..int n - 1] (\<lambda>x. setZone E x y ''road'') c)) c)
       (\<lambda>c. and_then
          (for_step (int n div 8) (int n) (int n div 8)
             (\<lambda>x c. Some (for_each [0..int n - 1] (\<lambda>y. setZone E x y ''road'') c)) c)
       (\<lambda>c. Some (for_each [- 2..2] (\<lambda>i. for_each [0..int n - 1] (\<lambda>j c.
                if int n div 2 + (j - int n div 2) + i \<ge> 0 \<and> int n div 2 + (j - int n div 2) + i < int n
                then setZone E j (int n div 2 + (j - int n div 2) + i) ''road'' c
                else Inr c)) c))))" by blast
  have "''road'' \<noteq> ''transit''" by simp
  from paints_transit_free[OF S this tf] show ?thesis
    by (simp add: generateRoadNetwork_def Let_def gs)
qed

lemma hub_cluster:
  assumes "ZONE_TYPES E t \<noteq> None"
  shows "paints t {(x, y), (x + 1, y), (x, y + 1), (x + 1, y + 1)}
           (\<lambda>c. Some (for_each [(x, y), (x + 1, y), (x, y + 1), (x + 1, y + 1)]
                         (\<lambda>(a, b). setZone E a b t) c))"
proof -
  let ?L = "[(x, y), (x + 1, y), (x, y + 1), (x + 1, y + 1)]"
  have "paints t {v} (\<lambda>c. Some ((\<lambda>(a, b). setZone E a b t) v c))" for v :: "int \<times> int"
  proof -
    obtain a b where v: "v = (a, b)" by (cases v)
    from paints_setZone[of t E a b] assms show ?thesis by (simp add: v)
  qed
  then have h: "paints t (\<Union>v \<in> set ?L. {v}) (\<lambda>c. Some (for_each ?L (\<lambda>(a, b). setZone E a b t) c))"
    by (intro paints_for_each[where S = "\<lambda>v. {v}"])
  have eq: "(\<Union>v \<in> set ?L. {v}) = {(x, y), (x + 1, y), (x, y + 1), (x + 1, y + 1)}" by auto
  from h show ?thesis unfolding eq .
qed

lemma hubs_paint:
  fixes n :: int
  assumes s: "0 < n div 4" and z: "ZONE_TYPES E ''transit'' \<noteq> None"
  shows "paints ''transit''
           (\<Union>q \<in> hub_coords n. \<Union>p \<in> hub_coords n. {(p, q), (p + 1, q), (p, q + 1), (p + 1, q + 1)})
           (for_step (n div 4) n (n div 4)
             (\<lambda>y. for_step (n div 4) n (n div 4)
               (\<lambda>x c. Some (for_each [(x, y), (x + 1, y), (x, y + 1), (x + 1, y + 1)]
                             (\<lambda>(a, b). setZone E a b ''transit'') c))))"
  unfolding hub_coords_def
  by (rule paints_for_step[OF s], rule paints_for_step[OF s], rule hub_cluster[OF z])

lemma count_cells_product:
  assumes sq: "square_grid n g" and C: "C \<subseteq> {..<n}"
    and t: "\<And>x y. x < n \<Longrightarrow> y < n \<Longrightarrow> (ztype (g ! y ! x) = k) = (x \<in> C \<and> y \<in> C)"
  shows "count_cells g k = card C * card C"
proof -
  from sq have len: "length g = n" and rows: "\<And>y. y < n \<Longrightarrow> length (g ! y) = n"
    by (auto simp: square_grid_def)
  have row: "length (filter (\<lambda>z. ztype z = k) (g ! y)) = (if y \<in> C then card C else 0)"
    if y: "y < n" for y
  proof -
    have "{i. i < length (g ! y) \<and> ztype (g ! y ! i) = k} = {i. i < n \<and> i \<in> C \<and> y \<in> C}"
      using rows[OF y] t[OF _ y] by auto
    also have "\<dots> = (if y \<in> C then C else {})" using C by auto
    finally show ?thesis by (simp add: length_filter_conv_card)
  qed
  have "count_cells g k = (\<Sum>y = 0..<n. length (filter (\<lambda>z. ztype z = k) (g ! y)))"
    by (simp add: count_cells_def sum_list_sum_nth len)
  also have "\<dots> = (\<Sum>y = 0..<n. if y \<in> C then card C else 0)"
    by (rule sum.cong) (simp_all add: row)
  also have "\<dots> = card C * card ({0..<n} \<inter> C)"
    by (simp add: sum.If_cases Int_def)
  also have "{0..<n} \<inter> C = C" using C by auto
  finally show ?thesis .
qed

lemma hub_positions_set:
  assumes s: "0 < n div 4"
  shows "(p \<in> set (hub_positions n)) = (n div 4 \<le> p \<and> p < n \<and> (n div 4) dvd p)"
proof
  assume "p \<in> set (hub_positions n)"
  then obtain k where k: "1 \<le> k" "k \<le> (n - 1) div (n div 4)" "p = k * (n div 4)"
    by (auto simp: hub_positions_def)
  from s have n: "0 < n" by (cases n) simp_all
  from k(2) have "k * (n div 4) \<le> ((n - 1) div (n div 4)) * (n div 4)" by simp
  also have "\<dots> \<le> n - 1" by simp
  finally have "p < n" using k(3) n by simp
  moreover from k(1) have "n div 4 \<le> p" unfolding k(3) by simp
  ultimately show "n div 4 \<le> p \<and> p < n \<and> (n div 4) dvd p" using k(3) by simp
next
  assume a: "n div 4 \<le> p \<and> p < n \<and> (n div 4) dvd p"
  then obtain k where k: "p = (n div 4) * k" by (auto simp: dvd_def)
  with a s have k1: "1 \<le> k" by (cases k) simp_all
  from a have "p < n" by simp
  then have "p \<le> n - 1" by linarith
  then have "p div (n div 4) \<le> (n - 1) div (n div 4)" by (rule div_le_mono)
  with k s have k2: "k \<le> (n - 1) div (n div 4)" by simp
  from k1 k2 k show "p \<in> set (hub_positions n)"
    by (auto simp: hub_positions_def image_iff intro!: bexI[of _ k])
qed

lemma hub_coords_nat:
  assumes s: "0 < n div 4"
  shows "(int p \<in> hub_coords (int n)) = (p \<in> set (hub_positions n))"
proof -
  have i: "int n div 4 = int (n div 4)" by (simp add: zdiv_int)
  have d: "(int (n div 4) dvd int p - int (n div 4)) = (n div 4 dvd p)"
  proof -
    have "(int (n div 4) dvd int p - int (n div 4)) = (int (n div 4) dvd int p)"
      by (rule dvd_diff_left_iff) (rule dvd_refl)
    also have "\<dots> = (n div 4 dvd p)" by (rule int_dvd_int_iff)
    finally show ?thesis .
  qed
  show ?thesis
    unfolding hub_positions_set[OF s] hub_coords_def i
    by (simp only: mem_Collect_eq d of_nat_le_iff of_nat_less_iff)
qed

lemma hub_coords_pos: "0 < n div 4 \<Longrightarrow> x \<in> hub_coords n \<Longrightarrow> 0 < x"
  by (auto simp: hub_coords_def)

lemma hub_columns_set:
  assumes s: "0 < n div 4"
  shows "(x \<in> set (hub_columns n)) =
         (x < n \<and> (int x \<in> hub_coords (int n) \<or> int x - 1 \<in> hub_coords (int n)))"
proof -
  have i: "0 < int n div 4" using s by (simp add: zdiv_int)
  have "(int x - 1 \<in> hub_coords (int n)) = (\<exists>p \<in> set (hub_positions n). x = Suc p)"
  proof
    assume a: "int x - 1 \<in> hub_coords (int n)"
    from hub_coords_pos[OF i a] have "0 < x" by simp
    then have e: "int x - 1 = int (x - 1)" by simp
    from a have "x - 1 \<in> set (hub_positions n)" unfolding e hub_coords_nat[OF s] .
    with \<open>0 < x\<close> show "\<exists>p \<in> set (hub_positions n). x = Suc p" by (intro bexI[of _ "x - 1"]) simp_all
  next
    assume "\<exists>p \<in> set (hub_positions n). x = Suc p"
    then obtain p where p: "p \<in> set (hub_positions n)" "x = Suc p" by blast
    from p(1) have "int p \<in> hub_coords (int n)" by (simp add: hub_coords_nat[OF s])
    moreover have "int x - 1 = int p" using p(2) by simp
    ultimately show "int x - 1 \<in> hub_coords (int n)" by simp
  qed
  then show ?thesis
    by (auto simp: hub_columns_def hub_coords_nat[OF s])
qed

lemma hub_columns_card: "card (set (hub_columns n)) = length (hub_columns n)"
  unfolding hub_columns_def by (rule distinct_card) (rule distinct_remdups)

lemma hub_columns_fit:
  assumes n: "8 \<le> n" and fit: "\<not> (n div 4) dvd (n - 1)"
  shows "length (hub_columns n) = 2 * length (hub_positions n)"
proof -
  let ?s = "n div 4"
  let ?P = "set (hub_positions n)"
  from n have s2: "2 \<le> ?s" by simp
  then have s: "0 < ?s" by simp
  have suc_in: "Suc p < n" if "p \<in> ?P" for p
  proof -
    from that have p: "p < n" "?s dvd p" by (simp_all add: hub_positions_set[OF s])
    with fit have "p \<noteq> n - 1" by auto
    with p(1) show ?thesis by simp
  qed
  have lt: "p < n" if "p \<in> ?P" for p using that by (simp add: hub_positions_set[OF s])
  have set: "set (hub_columns n) = ?P \<union> Suc ` ?P"
    using suc_in lt by (auto simp: hub_columns_def)
  have disj: "?P \<inter> Suc ` ?P = {}"
  proof (rule ccontr)
    assume "?P \<inter> Suc ` ?P \<noteq> {}"
    then obtain p where "p \<in> ?P" "Suc p \<in> ?P" by auto
    then have "?s dvd p" "?s dvd Suc p" by (simp_all add: hub_positions_set[OF s])
    then have "?s dvd Suc p - p" by (rule dvd_diff_nat[rotated])
    then have "?s = 1" by simp
    with s2 show False by simp
  qed
  have dist: "distinct (hub_positions n)"
    unfolding hub_positions_def using s by (auto simp: distinct_map intro!: inj_onI)
  have "length (hub_columns n) = card (?P \<union> Suc ` ?P)"
    using hub_columns_card[of n] set by simp
  also have "\<dots> = card ?P + card (Suc ` ?P)"
    by (rule card_Un_disjoint) (simp_all add: disj)
  also have "card (Suc ` ?P) = card ?P" by (rule card_image) simp
  also have "card ?P = length (hub_positions n)" using dist by (rule distinct_card)
  finally show ?thesis by simp
qed

lemma type_at_None_iff:
  "square_grid n (grid c) \<Longrightarrow>
   (type_at c x y \<noteq> None) = (0 \<le> x \<and> x < int n \<and> 0 \<le> y \<and> y < int n)"
  by (auto simp: type_at_def cell_def square_grid_def)

lemma addTransitHubs_cells:
  assumes n: "0 < n div 4" and z: "ZONE_TYPES E ''transit'' \<noteq> None" and tf: "transit_free n c"
  shows "\<exists>c'. addTransitHubs E c = Some (Inr c') \<and> gridSize c' = n \<and> square_grid n (grid c') \<and>
           (\<forall>x y. (type_at c' x y = Some ''transit'') =
                  (0 \<le> x \<and> x < int n \<and> 0 \<le> y \<and> y < int n \<and>
                   (x \<in> hub_coords (int n) \<or> x - 1 \<in> hub_coords (int n)) \<and>
                   (y \<in> hub_coords (int n) \<or> y - 1 \<in> hub_coords (int n))))"
proof -
  from tf have gs: "gridSize c = n" and sq: "square_grid n (grid c)"
    and nt: "\<And>x y. type_at c x y \<noteq> Some ''transit''" by (simp_all add: transit_free_def)
  from n have s: "0 < int n div 4" by (simp add: zdiv_int)
  let ?H = "\<Union>q \<in> hub_coords (int n). \<Union>p \<in> hub_coords (int n).
              {(p, q), (p + 1, q), (p, q + 1), (p + 1, q + 1)}"
  from sq gs have "square_grid (gridSize c) (grid c)" by simp
  with hubs_paint[OF s z] obtain c' where
    c': "for_step (int n div 4) (int n) (int n div 4)
             (\<lambda>y. for_step (int n div 4) (int n) (int n div 4)
               (\<lambda>x c. Some (for_each [(x, y), (x + 1, y), (x, y + 1), (x + 1, y + 1)]
                             (\<lambda>(a, b). setZone E a b ''transit'') c))) c = Some (Inr c')"
      "square_grid (gridSize c') (grid c')" "gridSize c' = gridSize c"
      "\<forall>x y. type_at c' x y =
               (if (x, y) \<in> ?H \<and> type_at c x y \<noteq> None then Some ''transit'' else type_at c x y)"
    unfolding paints_def by blast
  have run: "addTransitHubs E c = Some (Inr c')"
    using c'(1) by (simp add: addTransitHubs_def Let_def gs)
  have H: "((x, y) \<in> ?H) =
           ((x \<in> hub_coords (int n) \<or> x - 1 \<in> hub_coords (int n)) \<and>
            (y \<in> hub_coords (int n) \<or> y - 1 \<in> hub_coords (int n)))" for x y
  proof
    assume "(x, y) \<in> ?H"
    then obtain p q where pq: "p \<in> hub_coords (int n)" "q \<in> hub_coords (int n)"
      "(x = p \<or> x = p + 1) \<and> (y = q \<or> y = q + 1)" by auto
    then show "(x \<in> hub_coords (int n) \<or> x - 1 \<in> hub_coords (int n)) \<and>
            (y \<in> hub_coords (int n) \<or> y - 1 \<in> hub_coords (int n))" by auto
  next
    assume a: "(x \<in> hub_coords (int n) \<or> x - 1 \<in> hub_coords (int n)) \<and>
            (y \<in> hub_coords (int n) \<or> y - 1 \<in> hub_coords (int n))"
    then obtain p where p: "p \<in> hub_coords (int n)" "x = p \<or> x = p + 1" by auto
    from a obtain q where q: "q \<in> hub_coords (int n)" "y = q \<or> y = q + 1" by auto
    from p(2) q(2) have "(x, y) \<in> {(p, q), (p + 1, q), (p, q + 1), (p + 1, q + 1)}" by auto
    with p(1) q(1) show "(x, y) \<in> ?H" by blast
  qed
  have "(type_at c' x y = Some ''transit'') =
        (0 \<le> x \<and> x < int n \<and> 0 \<le> y \<and> y < int n \<and>
         (x \<in> hub_coords (int n) \<or> x - 1 \<in> hub_coords (int n)) \<and>
         (y \<in> hub_coords (int n) \<or> y - 1 \<in> hub_coords (int n)))" for x y
  proof -
    have "(type_at c' x y = Some ''transit'') = ((x, y) \<in> ?H \<and> type_at c x y \<noteq> None)"
      using c'(4) nt[of x y] by simp
    then show ?thesis unfolding H type_at_None_iff[OF sq] by blast
  qed
  with run c'(2,3) gs show ?thesis by simp
qed

lemma generateLayout_transit_cells:
  assumes n: "8 \<le> gridSize c" and z: "ZONE_TYPES E ''transit'' \<noteq> None"
    and cr: "commercialRatio params = Some 0" and tr: "transitRatio params = Some 0"
    and rnd: "\<forall>i. 0 \<le> random i"
  shows "\<exists>c'. generateLayout E random params c = Some (Inr c') \<and> gridSize c' = gridSize c \<and>
           square_grid (gridSize c) (grid c') \<and>
           (\<forall>x y. (type_at c' x y = Some ''transit'') =
                  (0 \<le> x \<and> x < int (gridSize c) \<and> 0 \<le> y \<and> y < int (gridSize c) \<and>
                   (x \<in> hub_coords (int (gridSize c)) \<or> x - 1 \<in> hub_coords (int (gridSize c))) \<and>
                   (y \<in> hub_coords (int (gridSize c)) \<or> y - 1 \<in> hub_coords (int (gridSize c)))))"
proof -
  let ?n = "gridSize c"
  from n have s: "0 < ?n div 4" by simp
  from generateRoadNetwork_transit_free[OF n clear_transit_free, of E E] obtain c1 where
    c1: "generateRoadNetwork E (clear E c) = Some (Inr c1)" "transit_free ?n c1" by blast
  from c1(2) have g1: "gridSize c1 = ?n" by (simp add: transit_free_def)
  from zoning_transit_free[OF cr tr rnd c1(2), of E] obtain c2 where
    c2: "for_each [0..int ?n - 1] (\<lambda>y. for_each [0..int ?n - 1] (zone_cell E random params y)) c1
         = Inr c2" "transit_free ?n c2" by blast
  from addTransitHubs_cells[OF s z c2(2)] obtain c3 where
    c3: "addTransitHubs E c2 = Some (Inr c3)" "gridSize c3 = ?n" "square_grid ?n (grid c3)"
      "\<forall>x y. (type_at c3 x y = Some ''transit'') =
                  (0 \<le> x \<and> x < int ?n \<and> 0 \<le> y \<and> y < int ?n \<and>
                   (x \<in> hub_coords (int ?n) \<or> x - 1 \<in> hub_coords (int ?n)) \<and>
                   (y \<in> hub_coords (int ?n) \<or> y - 1 \<in> hub_coords (int ?n)))" by blast
  let ?c4 = "saveState (calculateStats E c3)"
  have g4: "grid ?c4 = grid c3" "gridSize ?c4 = gridSize c3"
    by (simp_all add: saveState_frame calculateStats_frame)
  then have t4: "type_at ?c4 x y = type_at c3 x y" for x y by (simp add: type_at_def)
  have "generateLayout E random params c = Some (Inr ?c4)"
    by (simp add: generateLayout_def and_then_def c1(1) g1 c2(1) c3(1))
  with g4 t4 c3 show ?thesis by simp
qed

lemma transit_count:
  assumes s: "0 < n div 4" and sq: "square_grid n (grid c)"
    and t: "\<forall>x y. (type_at c x y = Some ''transit'') =
                  (0 \<le> x \<and> x < int n \<and> 0 \<le> y \<and> y < int n \<and>
                   (x \<in> hub_coords (int n) \<or> x - 1 \<in> hub_coords (int n)) \<and>
                   (y \<in> hub_coords (int n) \<or> y - 1 \<in> hub_coords (int n)))"
  shows "count_cells (grid c) ''transit'' = length (hub_columns n) * length (hub_columns n)"
proof -
  have C: "set (hub_columns n) \<subseteq> {..<n}" by (auto simp: hub_columns_set[OF s])
  have "(ztype (grid c ! y ! x) = ''transit'') = (x \<in> set (hub_columns n) \<and> y \<in> set (hub_columns n))"
    if x: "x < n" and y: "y < n" for x y
  proof -
    have "cell (grid c) (int x) (int y) = Some (grid c ! nat (int y) ! nat (int x))"
      by (rule cell_square[OF sq]) (use x y in simp_all)
    then have "type_at c (int x) (int y) = Some (ztype (grid c ! y ! x))" by (simp add: type_at_def)
    then have "(ztype (grid c ! y ! x) = ''transit'') = (type_at c (int x) (int y) = Some ''transit'')"
      by simp
    also have "\<dots> = (x \<in> set (hub_columns n) \<and> y \<in> set (hub_columns n))"
      unfolding hub_columns_set[OF s] using t x y by simp
    finally show ?thesis .
  qed
  from count_cells_product[OF sq C this] show ?thesis by (simp add: hub_columns_card)
qed

lemma generateLayout_transit_count:
  assumes n: "8 \<le> gridSize c" and z: "ZONE_TYPES E ''transit'' \<noteq> None"
    and cr: "commercialRatio params = Some 0" and tr: "transitRatio params = Some 0"
    and rnd: "\<forall>i. 0 \<le> random i"
  shows "\<exists>c'. generateLayout E random params c = Some (Inr c') \<and>
           count_cells (grid c') ''transit'' =
             length (hub_columns (gridSize c)) * length (hub_columns (gridSize c))"
proof -
  from n have s: "0 < gridSize c div 4" by simp
  from generateLayout_transit_cells[OF assms] obtain c' where
    c': "generateLayout E random params c = Some (Inr c')" "square_grid (gridSize c) (grid c')"
      "\<forall>x y. (type_at c' x y = Some ''transit'') =
                  (0 \<le> x \<and> x < int (gridSize c) \<and> 0 \<le> y \<and> y < int (gridSize c) \<and>
                   (x \<in> hub_coords (int (gridSize c)) \<or> x - 1 \<in> hub_coords (int (gridSize c))) \<and>
                   (y \<in> hub_coords (int (gridSize c)) \<or> y - 1 \<in> hub_coords (int (gridSize c))))"
    by blast
  from transit_count[OF s c'(2,3)] c'(1) show ?thesis by blast
qed

lemma fit_axis:
  assumes n: "8 \<le> n" and fit: "\<not> (n div 4) dvd (n - 1)"
  shows "(0 \<le> x \<and> x < int n \<and> (x \<in> hub_coords (int n) \<or> x - 1 \<in> hub_coords (int n))) =
         (\<exists>p \<in> set (hub_positions n). x = int p \<or> x = int p + 1)"
proof
  from n have s: "0 < n div 4" by simp
  then have i: "0 < int n div 4" by (simp add: zdiv_int)
  assume a: "0 \<le> x \<and> x < int n \<and> (x \<in> hub_coords (int n) \<or> x - 1 \<in> hub_coords (int n))"
  then consider "x \<in> hub_coords (int n)" | "x - 1 \<in> hub_coords (int n)" by blast
  then show "\<exists>p \<in> set (hub_positions n). x = int p \<or> x = int p + 1"
  proof cases
    case 1
    from hub_coords_pos[OF i 1] have e: "x = int (nat x)" by simp
    from 1 have "nat x \<in> set (hub_positions n)" using hub_coords_nat[OF s, of "nat x"] e by simp
    with e show ?thesis by blast
  next
    case 2
    from hub_coords_pos[OF i 2] have e: "x - 1 = int (nat (x - 1))" by simp
    from 2 have "nat (x - 1) \<in> set (hub_positions n)"
      using hub_coords_nat[OF s, of "nat (x - 1)"] e by simp
    moreover from e have "x = int (nat (x - 1)) + 1" by simp
    ultimately show ?thesis by blast
  qed
next
  from n have s: "0 < n div 4" by simp
  assume "\<exists>p \<in> set (hub_positions n). x = int p \<or> x = int p + 1"
  then obtain p where p: "p \<in> set (hub_positions n)" "x = int p \<or> x = int p + 1" by blast
  from p(1) have pn: "p < n" "n div 4 dvd p" by (simp_all add: hub_positions_set[OF s])
  with fit have "p \<noteq> n - 1" by auto
  with pn(1) have sp: "Suc p < n" by simp
  from p(1) have hc: "int p \<in> hub_coords (int n)" by (simp add: hub_coords_nat[OF s])
  from p(2) show "0 \<le> x \<and> x < int n \<and> (x \<in> hub_coords (int n) \<or> x - 1 \<in> hub_coords (int n))"
  proof
    assume "x = int p"
    with hc pn(1) show ?thesis by simp
  next
    assume "x = int p + 1"
    with hc sp show ?thesis by simp
  qed
qed

text \<open>
  C9. The claim as stated does not hold for every grid size: \<open>setZone\<close> ignores a cell
  outside the grid, so a hub whose position is the last row or column keeps only the
  cells that are inside it, and for \<open>gridSize\<close> from 1 to 7 the road generator, whose
  spacing \<open>floor(gridSize / 8)\<close> is 0, does not return (\<open>generateLayout_diverges\<close>). In
  general the transit cells are the square of the hub columns
  (\<open>generateLayout_transit_count\<close>). What holds is this: on a City of grid size at least
  8 in which \<open>gridSize - 1\<close> is not a multiple of \<open>floor(gridSize / 4)\<close>, with a Zone
  Catalog that knows the type \<open>transit\<close>, commercial and transit ratio 0, and whatever
  the other ratios and the random draws (each at least 0, as \<open>Math.random()\<close> gives
  them), \<open>generateLayout\<close> returns normally, the number of transit cells is 4 times
  the number of intersections of the spacing grid, and the transit cells are exactly
  the cells of the \<open>2 \<times> 2\<close> clusters at these intersections, whatever the zoning pass
  had put there.
\<close>

theorem transit_hub_cells:
  assumes n: "8 \<le> gridSize c" and fit: "\<not> (gridSize c div 4) dvd (gridSize c - 1)"
    and z: "ZONE_TYPES E ''transit'' \<noteq> None"
    and cr: "commercialRatio params = Some 0" and tr: "transitRatio params = Some 0"
    and rnd: "\<forall>i. 0 \<le> random i"
  shows "\<exists>c'. generateLayout E random params c = Some (Inr c') \<and>
           count_cells (grid c') ''transit'' = 4 * length (hub_intersections (gridSize c)) \<and>
           (\<forall>x y. (type_at c' x y = Some ''transit'') =
                  (\<exists>(p, q) \<in> set (hub_intersections (gridSize c)).
                      (x = int p \<or> x = int p + 1) \<and> (y = int q \<or> y = int q + 1)))"
proof -
  let ?n = "gridSize c"
  from n have s: "0 < ?n div 4" by simp
  from generateLayout_transit_cells[OF n z cr tr rnd] obtain c' where
    c': "generateLayout E random params c = Some (Inr c')" "square_grid ?n (grid c')"
      "\<forall>x y. (type_at c' x y = Some ''transit'') =
                  (0 \<le> x \<and> x < int ?n \<and> 0 \<le> y \<and> y < int ?n \<and>
                   (x \<in> hub_coords (int ?n) \<or> x - 1 \<in> hub_coords (int ?n)) \<and>
                   (y \<in> hub_coords (int ?n) \<or> y - 1 \<in> hub_coords (int ?n)))"
    by blast
  have "count_cells (grid c') ''transit'' = length (hub_columns ?n) * length (hub_columns ?n)"
    by (rule transit_count[OF s c'(2,3)])
  also have "\<dots> = 4 * length (hub_intersections ?n)"
    by (simp add: hub_columns_fit[OF n fit] hub_intersections_def)
  finally have cnt: "count_cells (grid c') ''transit'' = 4 * length (hub_intersections ?n)" .
  have "(type_at c' x y = Some ''transit'') =
          (\<exists>(p, q) \<in> set (hub_intersections ?n).
              (x = int p \<or> x = int p + 1) \<and> (y = int q \<or> y = int q + 1))" for x y
  proof -
    have "(type_at c' x y = Some ''transit'') =
          ((0 \<le> x \<and> x < int ?n \<and> (x \<in> hub_coords (int ?n) \<or> x - 1 \<in> hub_coords (int ?n))) \<and>
           (0 \<le> y \<and> y < int ?n \<and> (y \<in> hub_coords (int ?n) \<or> y - 1 \<in> hub_coords (int ?n))))"
      using c'(3) by blast
    also have "\<dots> = ((\<exists>p \<in> set (hub_positions ?n). x = int p \<or> x = int p + 1) \<and>
                     (\<exists>q \<in> set (hub_positions ?n). y = int q \<or> y = int q + 1))"
      unfolding fit_axis[OF n fit] ..
    also have "\<dots> = (\<exists>(p, q) \<in> set (hub_intersections ?n).
              (x = int p \<or> x = int p + 1) \<and> (y = int q \<or> y = int q + 1))"
      by (auto simp: hub_intersections_def)
    finally show ?thesis .
  qed
  with c'(1) cnt show ?thesis by blast
qed

lemma CityModel_SizeNum:
  "\<exists>c. CityModel E (SizeNum k) m = Inr c \<and> gridSize c = k"
  by (simp add: CityModel_def Let_def generateId_def create2DArray_def saveState_frame)

lemma city9_eq: "CityModel sampleEnv (SizeNum 9) 0 = Inr city9"
  using CityModel_SizeNum[of sampleEnv 9 0] by (auto simp: city9_def)

lemma city9_gridSize: "gridSize city9 = 9"
  using CityModel_SizeNum[of sampleEnv 9 0] by (auto simp: city9_def)

lemma city8_eq: "CityModel sampleEnv (SizeNum 8) 0 = Inr city8"
  using CityModel_SizeNum[of sampleEnv 8 0] by (auto simp: city8_def)

lemma city8_gridSize: "gridSize city8 = 8"
  using CityModel_SizeNum[of sampleEnv 8 0] by (auto simp: city8_def)

lemma hub_positions_8: "hub_positions 8 = [2, 4, 6]"
  by code_simp

lemma hub_positions_9: "hub_positions 9 = [2, 4, 6, 8]"
  by code_simp

lemma hub_columns_9: "hub_columns 9 = [2, 3, 4, 5, 6, 7, 8]"
  by code_simp

lemma sampleEnv_transit: "ZONE_TYPES sampleEnv ''transit'' \<noteq> None"
  by (simp add: sampleEnv_def)

lemma params_no_transit_simps:
  "commercialRatio params_no_transit = Some 0" "transitRatio params_no_transit = Some 0"
  "industrialRatio params_no_transit = Some 0" "residentialRatio params_no_transit = None"
  "greenRatio params_no_transit = None"
  by (simp_all add: params_no_transit_def)

lemma random_zero_ok: "\<forall>i. 0 \<le> random_zero i"
  by (simp add: random_zero_def)

theorem transit_hub_cells_witness:
  "CityModel sampleEnv (SizeNum 8) 0 = Inr city8 \<and> gridSize city8 = 8 \<and>
   \<not> (gridSize city8 div 4) dvd (gridSize city8 - 1) \<and>
   ZONE_TYPES sampleEnv ''transit'' \<noteq> None \<and>
   commercialRatio params_no_transit = Some 0 \<and> transitRatio params_no_transit = Some 0 \<and>
   (\<forall>i. 0 \<le> random_zero i) \<and>
   generateLayout sampleEnv random_zero params_no_transit city8 = Some (Inr city8_layout) \<and>
   count_cells (grid city8_layout) ''transit'' = 36 \<and>
   type_at city8_layout 3 7 = Some ''transit'' \<and>
   type_at city8_layout 1 2 \<noteq> Some ''transit''"
proof -
  have fit: "\<not> (gridSize city8 div 4) dvd (gridSize city8 - 1)" by (simp add: city8_gridSize)
  have n: "8 \<le> gridSize city8" by (simp add: city8_gridSize)
  from transit_hub_cells[OF n fit sampleEnv_transit params_no_transit_simps(1,2) random_zero_ok]
  obtain c' where
    c': "generateLayout sampleEnv random_zero params_no_transit city8 = Some (Inr c')"
      "count_cells (grid c') ''transit'' = 4 * length (hub_intersections (gridSize city8))"
      "\<forall>x y. (type_at c' x y = Some ''transit'') =
                  (\<exists>(p, q) \<in> set (hub_intersections (gridSize city8)).
                      (x = int p \<or> x = int p + 1) \<and> (y = int q \<or> y = int q + 1))"
    by blast
  from c'(1) have e: "city8_layout = c'" by (simp add: city8_layout_def after_def)
  have hi: "set (hub_intersections (gridSize city8)) = {2, 4, 6} \<times> {2, 4, 6}"
    by (simp add: hub_intersections_def city8_gridSize hub_positions_8)
  have l: "length (hub_intersections (gridSize city8)) = 9"
    by (simp add: hub_intersections_def city8_gridSize hub_positions_8)
  have a: "type_at city8_layout 3 7 = Some ''transit''"
    unfolding e using c'(3) hi by simp
  have b: "type_at city8_layout 1 2 \<noteq> Some ''transit''"
    unfolding e using c'(3) hi by simp
  from c'(1,2) a b l fit show ?thesis
    by (simp add: e city8_eq city8_gridSize sampleEnv_transit params_no_transit_simps random_zero_ok)
qed

theorem transit_hub_cells_counterexample:
  "CityModel sampleEnv (SizeNum 9) 0 = Inr city9 \<and> gridSize city9 = 9 \<and>
   generateLayout sampleEnv random_zero params_no_transit city9 = Some (Inr city9_layout) \<and>
   count_cells (grid city9_layout) ''transit'' = 49 \<and>
   4 * length (hub_intersections (gridSize city9)) = 64"
proof -
  have n: "8 \<le> gridSize city9" by (simp add: city9_gridSize)
  from generateLayout_transit_count[OF n sampleEnv_transit params_no_transit_simps(1,2) random_zero_ok]
  obtain c' where
    c': "generateLayout sampleEnv random_zero params_no_transit city9 = Some (Inr c')"
      "count_cells (grid c') ''transit'' =
         length (hub_columns (gridSize city9)) * length (hub_columns (gridSize city9))"
    by blast
  from c'(1) have e: "city9_layout = c'" by (simp add: city9_layout_def after_def)
  have l: "length (hub_intersections (gridSize city9)) = 16"
    by (simp add: hub_intersections_def city9_gridSize hub_positions_9)
  from c'(1,2) l show ?thesis
    by (simp add: e city9_eq city9_gridSize hub_columns_9)
qed

lemma for_step_stuck_aux:
  assumes a: "for_step v bound step body s = Some r"
    and b: "\<forall>p c. Q c \<longrightarrow> (\<exists>c'. body0 p c = Some (Inr c') \<and> Q c')"
  shows "body = body0 \<longrightarrow> step = 0 \<longrightarrow> v < bound \<longrightarrow> \<not> Q s"
proof (rule for_step.raw_induct
         [where P = "\<lambda>v bound step body s r. body = body0 \<longrightarrow> step = 0 \<longrightarrow> v < bound \<longrightarrow> \<not> Q s",
          OF _ a])
  fix f :: "int \<Rightarrow> int \<Rightarrow> int \<Rightarrow> (int \<Rightarrow> city \<Rightarrow> city outcome option) \<Rightarrow> city \<Rightarrow> city outcome option"
  fix v bound step body s r
  assume IH: "\<And>v bound step body s r.
                 f v bound step body s = Some r \<Longrightarrow>
                 body = body0 \<longrightarrow> step = 0 \<longrightarrow> v < bound \<longrightarrow> \<not> Q s"
    and eq: "(if v < bound
              then case body v s of None \<Rightarrow> None | Some (Inl e) \<Rightarrow> Some (Inl e)
                   | Some (Inr s') \<Rightarrow> f (v + step) bound step body s'
              else Some (Inr s)) = Some r"
  show "body = body0 \<longrightarrow> step = 0 \<longrightarrow> v < bound \<longrightarrow> \<not> Q s"
  proof (intro impI notI)
    assume e: "body = body0" and st: "step = 0" and lt: "v < bound" and q: "Q s"
    from b q obtain s' where s': "body0 v s = Some (Inr s')" "Q s'" by blast
    with eq lt e st have "f v bound step body s' = Some r" by simp
    from IH[OF this] e st lt s'(2) show False by blast
  qed
qed

lemma for_step_stuck:
  assumes b: "\<And>p c. Q c \<Longrightarrow> \<exists>c'. body p c = Some (Inr c') \<and> Q c'"
    and lt: "v < bound" and q: "Q s"
  shows "for_step v bound 0 body s = None"
proof (cases "for_step v bound 0 body s")
  case None
  then show ?thesis .
next
  case (Some r)
  from b have "\<forall>p c. Q c \<longrightarrow> (\<exists>c'. body p c = Some (Inr c') \<and> Q c')" by blast
  from for_step_stuck_aux[OF Some this] lt q show ?thesis by blast
qed

lemma generateRoadNetwork_diverges:
  assumes n: "1 \<le> gridSize c" "gridSize c < 8" and sq: "square_grid (gridSize c) (grid c)"
  shows "generateRoadNetwork E c = None"
proof -
  let ?g = "int (gridSize c)"
  let ?Q = "\<lambda>c :: city. square_grid (gridSize c) (grid c)"
  have s: "?g div 8 = 0" using n by simp
  have body: "\<exists>c'. Some (for_each [0..?g - 1] (\<lambda>x. setZone E x y ''road'') c1) = Some (Inr c') \<and> ?Q c'"
    if "?Q c1" for y c1
  proof -
    have "\<exists>S. paints ''road'' S (\<lambda>c. Some (for_each [0..?g - 1] (\<lambda>x. setZone E x y ''road'') c))"
      by (rule paintsE_for_each, rule paintsE_setZone)
    then show ?thesis using that unfolding paints_def by blast
  qed
  have "for_step 0 ?g 0
          (\<lambda>y c. Some (for_each [0..?g - 1] (\<lambda>x. setZone E x y ''road'') c)) c = None"
    by (rule for_step_stuck[where Q = ?Q]) (use body n sq in simp_all)
  then show ?thesis by (simp add: generateRoadNetwork_def Let_def s and_then_def)
qed

lemma generateLayout_diverges:
  assumes "1 \<le> gridSize c" "gridSize c < 8"
  shows "generateLayout E random params c = None"
proof -
  from clear_transit_free[of c E] have "square_grid (gridSize (clear E c)) (grid (clear E c))"
    by (simp add: transit_free_def)
  from generateRoadNetwork_diverges[OF _ _ this, of E] assms
  have "generateRoadNetwork E (clear E c) = None" by (simp add: clear_fields)
  then show ?thesis by (simp add: generateLayout_def and_then_def)
qed

end
